theory Spec2Isabelle
  imports Main "HOL-Library.AList" "HOL-Library.Sublist" "HOL-Library.Multiset"
begin

section \<open>Strings and arrays of the JavaScript host\<close>

text \<open>
  A JavaScript string is modelled by the byte sequence of its UTF-8 encoding, so a
  character beyond ASCII is two or more \<open>char\<close>s (\<open>e\<close> with grave accent is
  \<open>0xC3 0xA8\<close>). On well-formed strings \<open>startsWith\<close>, \<open>includes\<close> and string
  equality agree with the same operations on UTF-16 code units. The accented letters
  of the source's literals are written out byte by byte.
\<close>

definition e_grave :: string where
  "e_grave = [CHR 0xC3, CHR 0xA8]"

definition e_acute :: string where
  "e_acute = [CHR 0xC3, CHR 0xA9]"

definition u_circ :: string where
  "u_circ = [CHR 0xC3, CHR 0xBB]"

definition startsWith :: "string \<Rightarrow> string \<Rightarrow> bool" where
  "startsWith s p = (take (length p) s = p)"

fun includes_str :: "string \<Rightarrow> string \<Rightarrow> bool" where
  "includes_str [] p = (p = [])"
| "includes_str (c # cs) p = (startsWith (c # cs) p \<or> includes_str cs p)"

definition is_digit :: "char \<Rightarrow> bool" where
  "is_digit c = (c \<in> set ''0123456789'')"

text \<open>The regular expression \<open>/^\d+$/\<close>: one or more ASCII digits and nothing else.\<close>

definition all_digits :: "string \<Rightarrow> bool" where
  "all_digits s = (s \<noteq> [] \<and> list_all is_digit s)"

text \<open>
  \<open>Array.prototype.slice(0, end)\<close>: a negative \<open>end\<close> counts from the end of the
  array, and the result is empty when that falls before the start.
\<close>

definition slice0 :: "'a list \<Rightarrow> int \<Rightarrow> 'a list" where
  "slice0 xs end_ix =
     (if end_ix < 0 then take (nat (int (length xs) + end_ix)) xs else take (nat end_ix) xs)"

section \<open>Structured-data records\<close>

type_synonym json = string

text \<open>
  The value of a claim's main snak, \<open>claim.mainsnak.datavalue?.value\<close>: an object
  with an \<open>id\<close> (a reference to another item), a plain string (an external
  identifier, a file name), a coordinate pair, or some other object without an \<open>id\<close>.
  A snak without a data value gives \<open>None\<close>.
\<close>

datatype wdvalue =
    EntityIdValue string
  | StringValue string
  | GlobeCoordinate json json
  | OtherValue json

datatype claim = Claim (mainsnak_value: "wdvalue option")

type_synonym claims = "(string \<times> claim list) list"

text \<open>\<open>value && value.id\<close>: the id of an item reference, when it is a non-empty string.\<close>

definition value_id :: "claim \<Rightarrow> string option" where
  "value_id c =
     (case mainsnak_value c of
        Some (EntityIdValue i) \<Rightarrow> if i \<noteq> [] then Some i else None
      | _ \<Rightarrow> None)"

datatype ident_value = IdValue wdvalue | IdCoordinates "json option" "json option"

record wikidata_source =
  claims :: claims
  sitelinks :: json

record wikipedia_source =
  wp_title :: "json option"
  wp_extract :: "json option"
  wp_thumbnail :: "string option"
  wp_url :: "string option"
  wp_links :: "string list option"

record musicbrainz_source =
  mb_name :: "json option"
  mb_type :: "json option"
  mb_recordings :: "json list option"
  mb_releases :: "json list option"
  mb_relations :: "json option"

record openlibrary_source =
  ol_name :: "json option"
  ol_bio :: "json option"
  ol_birth_date :: "json option"
  ol_death_date :: "json option"
  ol_works_count :: "json option"
  ol_cover :: "string option"

record commons_image =
  img_url :: "string option"
  img_source_url :: "string option"
  img_width :: "json option"
  img_height :: "json option"
  img_title :: "json option"

record openstreetmap_source =
  osm_latitude :: "json option"
  osm_longitude :: "json option"
  osm_display_name :: "json option"
  osm_address :: "json option"
  osm_type :: "json option"
  osm_id :: "json option"
  osm_map_url :: string

record arxiv_paper =
  paper_title :: "string option"
  paper_summary :: "string option"
  paper_published :: "string option"
  paper_url :: "string option"

record archive_item =
  item_identifier :: json
  item_title :: "json option"
  item_date :: "json option"
  item_creator :: "json option"
  item_downloads :: "json option"
  item_url :: string
  item_embed_url :: string

record archive_source =
  ar_videos :: "archive_item list"
  ar_audio :: "archive_item list"
  ar_texts :: "archive_item list"
  ar_total_results :: "json option"

text \<open>
  \<open>entity.sources\<close>: one optional key per provider. \<open>None\<close> is an absent key.
\<close>

record sources =
  wikidata :: "wikidata_source option"
  wikipedia :: "wikipedia_source option"
  external_links :: "(string \<times> json list) list option"
  musicbrainz :: "musicbrainz_source option"
  tmdb :: "json option"
  openlibrary :: "openlibrary_source option"
  wikimedia_commons :: "commons_image list option"
  openstreetmap :: "openstreetmap_source option"
  arxiv :: "arxiv_paper list option"
  archive_org :: "archive_source option"

record entity =
  entity_id :: string
  name :: string
  description :: "string option"
  entity_type :: string
  identifiers :: "(string \<times> ident_value) list"
  sources :: sources

section \<open>The host: built-ins and the network\<close>

text \<open>
  What the code asks of its environment is a parameter of the model: the built-ins
  whose tables are not part of the repository (\<open>String.prototype.toLowerCase\<close>, the
  regular-expression matches of the preprint enrichment, the URL parsing and domain
  bucketing of the external-link enrichment), and one function per request the code
  sends, giving the parsed response or the reason the promise was rejected (a network
  error, a body that is not JSON). Requests to the encyclopedia carry the language of
  the host name they are sent to. In a response an optional field is \<open>None\<close> when it
  is absent or falsy.
\<close>

datatype rejection = Rejected string

record page =
  p_wikibase_item :: "string option"
  p_title :: string

record wikidata_entity =
  labels :: "(string \<times> string) list"
  descriptions :: "(string \<times> string) list"
  wd_claims :: "claims option"
  wd_sitelinks :: "json option"

record summary_response =
  sum_title :: "json option"
  sum_extract :: "json option"
  sum_thumbnail_source :: "string option"
  sum_desktop_page :: "string option"

record musicbrainz_response =
  mbr_name :: "json option"
  mbr_type :: "json option"
  mbr_recordings :: "json list option"
  mbr_releases :: "json list option"
  mbr_relations :: "json option"

record openlibrary_response =
  olr_name :: "json option"
  olr_title :: "json option"
  olr_bio_value :: "json option"
  olr_description_value :: "json option"
  olr_birth_date :: "json option"
  olr_death_date :: "json option"
  olr_work_count :: "json option"
  olr_covers :: "json list option"

record imageinfo =
  ii_thumburl :: "string option"
  ii_url :: "string option"
  ii_width :: "json option"
  ii_height :: "json option"

record commons_page =
  cp_imageinfo :: "imageinfo list option"
  cp_title :: "json option"

record nominatim_response =
  nr_display_name :: "json option"
  nr_address :: "json option"
  nr_type :: "json option"
  nr_osm_id :: "json option"

record archive_doc =
  d_identifier :: json
  d_title :: "json option"
  d_mediatype :: "string option"
  d_date :: "json option"
  d_creator :: "json option"
  d_downloads :: "json option"

record archive_response =
  docs :: "archive_doc list option"
  numFound :: "json option"

record wb_response =
  wb_entities :: "(string \<times> (string \<times> string) list) list option"

record host =
  toLowerCase :: "string \<Rightarrow> string"
  match_entries :: "string \<Rightarrow> string list option"
  match_tag :: "string \<Rightarrow> string \<Rightarrow> string option"
  categorize_links :: "string \<Rightarrow> string list \<Rightarrow> (string \<times> json list) list"
  opensearch :: "string \<Rightarrow> string \<Rightarrow> rejection + string list option"
  pageprops :: "string \<Rightarrow> string \<Rightarrow> rejection + (string \<times> page) list option"
  entitydata :: "string \<Rightarrow> rejection + (string \<times> wikidata_entity) list option"
  page_summary :: "string \<Rightarrow> string \<Rightarrow> rejection + summary_response"
  parse_links :: "string \<Rightarrow> string \<Rightarrow> rejection + string list option"
  parse_externallinks :: "string \<Rightarrow> string \<Rightarrow> rejection + string list option"
  musicbrainz_artist :: "string \<Rightarrow> rejection + musicbrainz_response"
  tmdb_movie :: "string \<Rightarrow> string \<Rightarrow> string \<Rightarrow> rejection + json"
  openlibrary_get :: "string \<Rightarrow> rejection + openlibrary_response"
  commons_search :: "string \<Rightarrow> rejection + commons_page list option"
  nominatim_reverse :: "string \<Rightarrow> string \<Rightarrow> rejection + nominatim_response"
  arxiv_query :: "string \<Rightarrow> rejection + string"
  archive_search :: "string \<Rightarrow> rejection + archive_response"
  wbgetentities :: "string list \<Rightarrow> string \<Rightarrow> rejection + wb_response"

section \<open>Entity resolver\<close>

text \<open>
  What a call throws: \<open>new Error(message)\<close>, a \<open>TypeError\<close> of the runtime (a
  property read on \<open>undefined\<close>), or the rejection of an awaited request.
\<close>

datatype error = Error string | TypeError | Rejection rejection

text \<open>The module variable \<open>CURRENT_LANG\<close> with its setter and getter.\<close>

record resolver_state =
  CURRENT_LANG :: string

definition setLanguage :: "string \<Rightarrow> resolver_state \<Rightarrow> resolver_state" where
  "setLanguage lang st = st\<lparr>CURRENT_LANG := lang\<rparr>"

definition getLanguage :: "resolver_state \<Rightarrow> string" where
  "getLanguage st = CURRENT_LANG st"

definition TMDB_API_KEY :: "string option" where
  "TMDB_API_KEY = None"

subsection \<open>Search and canonical identifiers\<close>

definition searchWikipedia :: "host \<Rightarrow> string \<Rightarrow> string \<Rightarrow> error + string list" where
  "searchWikipedia h lang query =
     (case opensearch h lang query of
        Inl r \<Rightarrow> Inl (Rejection r)
      | Inr (Some titles) \<Rightarrow> Inr titles
      | Inr None \<Rightarrow> Inr [])"

record lookup_result =
  r_id :: "string option"
  realTitle :: string

text \<open>
  \<open>null\<close> is \<open>None\<close>. The first key of \<open>pages\<close> is read; with no key at all the
  property read on \<open>undefined\<close> throws.
\<close>

definition getWikidataIdFromWikipedia ::
  "host \<Rightarrow> string \<Rightarrow> string \<Rightarrow> error + lookup_result option" where
  "getWikidataIdFromWikipedia h lang title =
     (case pageprops h lang title of
        Inl r \<Rightarrow> Inl (Rejection r)
      | Inr None \<Rightarrow> Inr None
      | Inr (Some []) \<Rightarrow> Inl TypeError
      | Inr (Some ((pageId, pg) # others)) \<Rightarrow>
          if pageId = ''-1'' then Inr None
          else Inr (Some
            \<lparr>r_id = (case p_wikibase_item pg of
                       Some i \<Rightarrow> if i \<noteq> [] then Some i else None
                     | None \<Rightarrow> None),
             realTitle = p_title pg\<rparr>))"

definition fetchWikidataEntity :: "host \<Rightarrow> string \<Rightarrow> error + wikidata_entity option" where
  "fetchWikidataEntity h wikidataId =
     (case entitydata h wikidataId of
        Inl r \<Rightarrow> Inl (Rejection r)
      | Inr None \<Rightarrow> Inl TypeError
      | Inr (Some ents) \<Rightarrow> Inr (map_of ents wikidataId))"

subsection \<open>Helpers\<close>

text \<open>\<open>a || b\<close> on values that are absent or strings: the empty string is falsy.\<close>

definition truthy :: "string option \<Rightarrow> bool" where
  "truthy v = (case v of Some s \<Rightarrow> s \<noteq> [] | None \<Rightarrow> False)"

definition or_else :: "string option \<Rightarrow> string option \<Rightarrow> string option" where
  "or_else a b = (if truthy a then a else b)"

definition getLabel :: "wikidata_entity \<Rightarrow> string \<Rightarrow> string option" where
  "getLabel ent lang = or_else (map_of (labels ent) lang) (map_of (labels ent) ''en'')"

definition getDescription :: "wikidata_entity \<Rightarrow> string \<Rightarrow> string option" where
  "getDescription ent lang =
     or_else (map_of (descriptions ent) lang) (map_of (descriptions ent) ''en'')"

definition typeMap :: "(string \<times> string) list" where
  "typeMap =
     [(''Q5'', ''person''), (''Q215627'', ''person''), (''Q11424'', ''film''),
      (''Q5398426'', ''series''), (''Q571'', ''book''), (''Q7725634'', ''book''),
      (''Q8341'', ''concept''), (''Q7278'', ''concept''), (''Q515'', ''place''),
      (''Q486972'', ''place''), (''Q7275'', ''place''), (''Q8502'', ''place''),
      (''Q4022'', ''place''), (''Q35127'', ''concept''), (''Q28640'', ''person''),
      (''Q1644573'', ''concept''), (''Q11173'', ''concept'')]"

text \<open>
  \<open>claims.P31[0].mainsnak.datavalue?.value?.id\<close> looked up in the table; a first claim
  without an item id, or with an id the table does not hold, gives \<open>entity\<close>.
\<close>

definition inferEntityType :: "wikidata_entity \<Rightarrow> string" where
  "inferEntityType ent =
     (case map_of (case wd_claims ent of Some cl \<Rightarrow> cl | None \<Rightarrow> []) ''P31'' of
        Some (c # cs) \<Rightarrow>
          (case mainsnak_value c of
             Some (EntityIdValue instanceOf) \<Rightarrow>
               (case map_of typeMap instanceOf of Some t \<Rightarrow> t | None \<Rightarrow> ''entity'')
           | _ \<Rightarrow> ''entity'')
      | _ \<Rightarrow> ''entity'')"

definition propertyMap :: "(string \<times> string) list" where
  "propertyMap =
     [(''P434'', ''musicbrainz''), (''P1004'', ''musicbrainz_work''), (''P4985'', ''tmdb''),
      (''P214'', ''viaf''), (''P227'', ''gnd''), (''P1953'', ''discogs''),
      (''P646'', ''freebase''), (''P648'', ''openlibrary''), (''P345'', ''imdb''),
      (''P1233'', ''isfdb_author''), (''P496'', ''orcid''), (''P625'', ''coordinates''),
      (''P18'', ''image'')]"

text \<open>\<open>if (value)\<close>: an object, or a non-empty string.\<close>

definition value_truthy :: "wdvalue option \<Rightarrow> bool" where
  "value_truthy v = (case v of Some (StringValue s) \<Rightarrow> s \<noteq> [] | Some w \<Rightarrow> True | None \<Rightarrow> False)"

definition coordinates_of :: "wdvalue \<Rightarrow> ident_value" where
  "coordinates_of v =
     (case v of GlobeCoordinate lat lon \<Rightarrow> IdCoordinates (Some lat) (Some lon)
      | _ \<Rightarrow> IdCoordinates None None)"

definition add_identifier ::
  "claims \<Rightarrow> (string \<times> ident_value) list \<Rightarrow> string \<times> string \<Rightarrow> (string \<times> ident_value) list" where
  "add_identifier cl ids pn =
     (case map_of cl (fst pn) of
        Some (c # cs) \<Rightarrow>
          (case mainsnak_value c of
             Some v \<Rightarrow>
               if value_truthy (Some v) then
                 AList.update (snd pn)
                   (if fst pn = ''P625'' then coordinates_of v else IdValue v) ids
               else ids
           | None \<Rightarrow> ids)
      | _ \<Rightarrow> ids)"

definition extractExternalIdentifiers :: "wikidata_entity \<Rightarrow> (string \<times> ident_value) list" where
  "extractExternalIdentifiers ent =
     foldl (add_identifier (case wd_claims ent of Some cl \<Rightarrow> cl | None \<Rightarrow> [])) [] propertyMap"

subsection \<open>Enrichments\<close>

text \<open>
  An enrichment mutates \<open>entity.sources\<close> and may call \<open>console.warn\<close>: it maps the
  entity to the updated entity and the warnings it logged. The warnings are a multiset:
  the enrichments run concurrently, and the order in which their warnings reach the
  console is the order in which their requests complete, which the program does not fix.
  Every statement that can throw stands inside the enrichment's \<open>try\<close>, whose
  \<open>catch\<close> logs the warning and returns, so an enrichment has no failing outcome of
  its own.
\<close>

type_synonym enriched = "entity \<times> string multiset"

definition dquote :: string where
  "dquote = [CHR 0x22]"

text \<open>A value interpolated into a template string.\<close>

definition ident_string :: "ident_value \<Rightarrow> string" where
  "ident_string v = (case v of IdValue (StringValue s) \<Rightarrow> s | _ \<Rightarrow> ''[object Object]'')"

definition js_string :: "string option \<Rightarrow> string" where
  "js_string v = (case v of Some s \<Rightarrow> s | None \<Rightarrow> ''undefined'')"

definition enrichFromWikipedia :: "host \<Rightarrow> string \<Rightarrow> string \<Rightarrow> entity \<Rightarrow> enriched" where
  "enrichFromWikipedia h lang title e =
     (case page_summary h lang title of
        Inl r \<Rightarrow> (e, {#''Wikipedia enrichment failed:''#})
      | Inr summary \<Rightarrow>
          (let wp = \<lparr>wp_title = sum_title summary, wp_extract = sum_extract summary,
                     wp_thumbnail = sum_thumbnail_source summary,
                     wp_url = sum_desktop_page summary, wp_links = None\<rparr>;
               e1 = e\<lparr>sources := (sources e)\<lparr>wikipedia := Some wp\<rparr>\<rparr>
           in case parse_links h lang title of
                Inl r \<Rightarrow> (e1, {#''Wikipedia enrichment failed:''#})
              | Inr None \<Rightarrow> (e1, {#})
              | Inr (Some links) \<Rightarrow>
                  (e\<lparr>sources := (sources e)
                       \<lparr>wikipedia := Some (wp\<lparr>wp_links := Some (take 50 links)\<rparr>)\<rparr>\<rparr>, {#})))"

text \<open>
  The buckets (official, music, video, social, other; the empty ones left out) are
  computed by the host's \<open>categorize_links\<close> from the entity's name and the links.
\<close>

definition enrichFromWikipediaExternalLinks ::
  "host \<Rightarrow> string \<Rightarrow> string \<Rightarrow> entity \<Rightarrow> enriched" where
  "enrichFromWikipediaExternalLinks h lang title e =
     (case parse_externallinks h lang title of
        Inl r \<Rightarrow> (e, {#''External links enrichment failed:''#})
      | Inr None \<Rightarrow> (e, {#})
      | Inr (Some externalLinks) \<Rightarrow>
          (e\<lparr>sources := (sources e)
               \<lparr>external_links := Some (categorize_links h (name e) externalLinks)\<rparr>\<rparr>, {#}))"

definition enrichFromMusicBrainz :: "host \<Rightarrow> entity \<Rightarrow> enriched" where
  "enrichFromMusicBrainz h e =
     (case map_of (identifiers e) ''musicbrainz'' of
        None \<Rightarrow> (e, {#})
      | Some mbId \<Rightarrow>
          (case musicbrainz_artist h (ident_string mbId) of
             Inl r \<Rightarrow> (e, {#''MusicBrainz enrichment failed:''#})
           | Inr data \<Rightarrow>
               (e\<lparr>sources := (sources e)
                    \<lparr>musicbrainz := Some
                       \<lparr>mb_name = mbr_name data, mb_type = mbr_type data,
                        mb_recordings = map_option (take 20) (mbr_recordings data),
                        mb_releases = map_option (take 20) (mbr_releases data),
                        mb_relations = mbr_relations data\<rparr>\<rparr>\<rparr>, {#})))"

text \<open>
  With \<open>TMDB_API_KEY\<close> unset the request is never sent; the payload it would store is
  the response as the host gives it.
\<close>

definition enrichFromTMDB :: "host \<Rightarrow> string \<Rightarrow> entity \<Rightarrow> enriched" where
  "enrichFromTMDB h lang e =
     (case map_of (identifiers e) ''tmdb'' of
        None \<Rightarrow> (e, {#})
      | Some tmdbId \<Rightarrow>
          (case TMDB_API_KEY of
             None \<Rightarrow> (e, {#})
           | Some k \<Rightarrow>
               (case tmdb_movie h (ident_string tmdbId) k lang of
                  Inl r \<Rightarrow> (e, {#''TMDB enrichment failed:''#})
                | Inr data \<Rightarrow> (e\<lparr>sources := (sources e)\<lparr>tmdb := Some data\<rparr>\<rparr>, {#}))))"

definition openlibrary_payload :: "openlibrary_response \<Rightarrow> openlibrary_source" where
  "openlibrary_payload data =
     \<lparr>ol_name = or_else (olr_name data) (olr_title data),
      ol_bio = or_else (olr_bio_value data) (olr_description_value data),
      ol_birth_date = olr_birth_date data, ol_death_date = olr_death_date data,
      ol_works_count = olr_work_count data,
      ol_cover =
        (case olr_covers data of
           Some (c # cs) \<Rightarrow>
             if c \<noteq> [] then Some (''https://covers.openlibrary.org/b/id/'' @ c @ ''-L.jpg'')
             else None
         | _ \<Rightarrow> None)\<rparr>"

definition openlibrary_fetch :: "host \<Rightarrow> string \<Rightarrow> entity \<Rightarrow> enriched" where
  "openlibrary_fetch h endpoint e =
     (case openlibrary_get h endpoint of
        Inl r \<Rightarrow> (e, {#''OpenLibrary enrichment failed:''#})
      | Inr data \<Rightarrow>
          (e\<lparr>sources := (sources e)\<lparr>openlibrary := Some (openlibrary_payload data)\<rparr>\<rparr>, {#}))"

text \<open>An identifier that is not a string has no \<open>startsWith\<close>: the call throws, in the \<open>try\<close>.\<close>

definition enrichFromOpenLibrary :: "host \<Rightarrow> entity \<Rightarrow> enriched" where
  "enrichFromOpenLibrary h e =
     (case map_of (identifiers e) ''openlibrary'' of
        None \<Rightarrow> (e, {#})
      | Some (IdValue (StringValue olId)) \<Rightarrow>
          if startsWith olId ''OL'' \<and> includes_str olId ''A'' then
            openlibrary_fetch h (''https://openlibrary.org/authors/'' @ olId @ ''.json'') e
          else if startsWith olId ''OL'' \<and> includes_str olId ''W'' then
            openlibrary_fetch h (''https://openlibrary.org/works/'' @ olId @ ''.json'') e
          else (e, {#})
      | Some other \<Rightarrow> (e, {#''OpenLibrary enrichment failed:''#}))"

text \<open>\<open>page.imageinfo[0]\<close> of an empty array is \<open>undefined\<close>, and reading it throws.\<close>

definition image_of :: "commons_page \<Rightarrow> commons_image option" where
  "image_of pg =
     (case cp_imageinfo pg of
        Some (ii # iis) \<Rightarrow>
          Some \<lparr>img_url = or_else (ii_thumburl ii) (ii_url ii), img_source_url = ii_url ii,
                img_width = ii_width ii, img_height = ii_height ii, img_title = cp_title pg\<rparr>
      | _ \<Rightarrow> None)"

definition enrichFromWikimediaCommons :: "host \<Rightarrow> entity \<Rightarrow> enriched" where
  "enrichFromWikimediaCommons h e =
     (case commons_search h (name e) of
        Inl r \<Rightarrow> (e, {#''Wikimedia Commons enrichment failed:''#})
      | Inr None \<Rightarrow> (e, {#})
      | Inr (Some pages) \<Rightarrow>
          (case those (map image_of (filter (\<lambda>pg. cp_imageinfo pg \<noteq> None) pages)) of
             None \<Rightarrow> (e, {#''Wikimedia Commons enrichment failed:''#})
           | Some images \<Rightarrow>
               (e\<lparr>sources := (sources e)\<lparr>wikimedia_commons := Some (take 5 images)\<rparr>\<rparr>, {#})))"

definition coordinates_pair :: "ident_value \<Rightarrow> string option \<times> string option" where
  "coordinates_pair v =
     (case v of
        IdCoordinates lat lon \<Rightarrow> (lat, lon)
      | IdValue (GlobeCoordinate lat lon) \<Rightarrow> (Some lat, Some lon)
      | _ \<Rightarrow> (None, None))"

definition enrichFromOpenStreetMap :: "host \<Rightarrow> entity \<Rightarrow> enriched" where
  "enrichFromOpenStreetMap h e =
     (case map_of (identifiers e) ''coordinates'' of
        None \<Rightarrow> (e, {#})
      | Some c \<Rightarrow>
          (let latitude = fst (coordinates_pair c); longitude = snd (coordinates_pair c)
           in case nominatim_reverse h (js_string latitude) (js_string longitude) of
                Inl r \<Rightarrow> (e, {#''OpenStreetMap enrichment failed:''#})
              | Inr data \<Rightarrow>
                  (e\<lparr>sources := (sources e)
                       \<lparr>openstreetmap := Some
                          \<lparr>osm_latitude = latitude, osm_longitude = longitude,
                           osm_display_name = nr_display_name data,
                           osm_address = nr_address data, osm_type = nr_type data,
                           osm_id = nr_osm_id data,
                           osm_map_url =
                             ''https://www.openstreetmap.org/?mlat='' @ js_string latitude @
                             ''&mlon='' @ js_string longitude @ ''#map=15/'' @
                             js_string latitude @ ''/'' @ js_string longitude\<rparr>\<rparr>\<rparr>, {#})))"

definition paper_of :: "host \<Rightarrow> string \<Rightarrow> arxiv_paper" where
  "paper_of h entry =
     \<lparr>paper_title = match_tag h ''title'' entry, paper_summary = match_tag h ''summary'' entry,
      paper_published = match_tag h ''published'' entry, paper_url = match_tag h ''id'' entry\<rparr>"

definition enrichFromArxiv :: "host \<Rightarrow> entity \<Rightarrow> enriched" where
  "enrichFromArxiv h e =
     (if entity_type e \<noteq> ''concept'' then (e, {#})
      else case arxiv_query h (name e) of
             Inl r \<Rightarrow> (e, {#''arXiv enrichment failed:''#})
           | Inr xmlText \<Rightarrow>
               (case match_entries h xmlText of
                  None \<Rightarrow> (e, {#})
                | Some entries \<Rightarrow>
                    (e\<lparr>sources := (sources e)
                         \<lparr>arxiv := Some (map (paper_of h) (take 3 entries))\<rparr>\<rparr>, {#})))"

definition enrichItem :: "archive_doc \<Rightarrow> archive_item" where
  "enrichItem d =
     \<lparr>item_identifier = d_identifier d, item_title = d_title d, item_date = d_date d,
      item_creator = d_creator d, item_downloads = d_downloads d,
      item_url = ''https://archive.org/details/'' @ d_identifier d,
      item_embed_url = ''https://archive.org/embed/'' @ d_identifier d\<rparr>"

definition archive_payload :: "archive_doc list \<Rightarrow> json option \<Rightarrow> archive_source" where
  "archive_payload items found =
     \<lparr>ar_videos = map enrichItem (take 3 (filter
         (\<lambda>d. d_mediatype d = Some ''movies'' \<or> d_mediatype d = Some ''video'') items)),
      ar_audio = map enrichItem (take 5 (filter
         (\<lambda>d. d_mediatype d = Some ''audio'' \<or> d_mediatype d = Some ''etree'') items)),
      ar_texts = map enrichItem (take 5 (filter (\<lambda>d. d_mediatype d = Some ''texts'') items)),
      ar_total_results = found\<rparr>"

text \<open>The search with query \<open>${searchQuery} AND ${mediaTypeFilter}\<close>.\<close>

definition archive_fetch :: "host \<Rightarrow> string \<Rightarrow> string \<Rightarrow> entity \<Rightarrow> enriched" where
  "archive_fetch h searchQuery mediaTypeFilter e =
     (case archive_search h (searchQuery @ '' AND '' @ mediaTypeFilter) of
        Inl r \<Rightarrow> (e, {#''Archive.org enrichment failed:''#})
      | Inr data \<Rightarrow>
          (case docs data of
             None \<Rightarrow> (e, {#})
           | Some [] \<Rightarrow> (e, {#})
           | Some items \<Rightarrow>
               (e\<lparr>sources := (sources e)
                    \<lparr>archive_org := Some (archive_payload items (numFound data))\<rparr>\<rparr>, {#})))"

definition enrichFromArchiveOrg :: "host \<Rightarrow> entity \<Rightarrow> enriched" where
  "enrichFromArchiveOrg h e =
     (if entity_type e = ''person'' then
        archive_fetch h (''creator:'' @ dquote @ name e @ dquote)
          ''(mediatype:audio OR mediatype:movies)'' e
      else if entity_type e = ''concept'' then (e, {#})
      else archive_fetch h (''title:'' @ dquote @ name e @ dquote) [] e)"

subsection \<open>Resolution\<close>

definition no_sources :: sources where
  "no_sources =
     \<lparr>wikidata = None, wikipedia = None, external_links = None, musicbrainz = None,
      tmdb = None, openlibrary = None, wikimedia_commons = None, openstreetmap = None,
      arxiv = None, archive_org = None\<rparr>"

definition base_entity :: "string \<Rightarrow> string \<Rightarrow> string \<Rightarrow> wikidata_entity \<Rightarrow> entity" where
  "base_entity lang title wikidataId wikidataEntity =
     \<lparr>entity_id = wikidataId,
      name = (case getLabel wikidataEntity lang of
                Some l \<Rightarrow> if l \<noteq> [] then l else title
              | None \<Rightarrow> title),
      description = getDescription wikidataEntity lang,
      entity_type = inferEntityType wikidataEntity,
      identifiers = extractExternalIdentifiers wikidataEntity,
      sources = no_sources
        \<lparr>wikidata := Some
           \<lparr>claims = (case wd_claims wikidataEntity of Some cl \<Rightarrow> cl | None \<Rightarrow> []),
            sitelinks = (case wd_sitelinks wikidataEntity of Some sl \<Rightarrow> sl | None \<Rightarrow> ''{}'')\<rparr>\<rparr>\<rparr>"

text \<open>
  \<open>Promise.allSettled\<close> over the nine enrichments. Each writes one key of
  \<open>entity.sources\<close>, a key of its own, and reads only the entity's name, type and
  identifiers, which nothing changes after the base entity is built; so any interleaving
  of the nine gives the entity that running them one after the other gives, and the
  warnings logged are, in some order, the warnings of the nine.
\<close>

definition then_enrich :: "enriched \<Rightarrow> (entity \<Rightarrow> enriched) \<Rightarrow> enriched" where
  "then_enrich el f = (fst (f (fst el)), snd el + snd (f (fst el)))"

definition enrichments :: "host \<Rightarrow> string \<Rightarrow> string \<Rightarrow> (entity \<Rightarrow> enriched) list" where
  "enrichments h lang title =
     [enrichFromWikipedia h lang title, enrichFromWikipediaExternalLinks h lang title,
      enrichFromMusicBrainz h, enrichFromTMDB h lang, enrichFromOpenLibrary h,
      enrichFromWikimediaCommons h, enrichFromOpenStreetMap h, enrichFromArxiv h,
      enrichFromArchiveOrg h]"

text \<open>
  A record the response does not hold is \<open>undefined\<close>, and the first read of it
  (\<open>entity.labels\<close> in \<open>getLabel\<close>) throws.
\<close>

definition resolveEntityFromCandidate ::
  "host \<Rightarrow> string \<Rightarrow> string \<Rightarrow> string \<Rightarrow> error + enriched" where
  "resolveEntityFromCandidate h lang title wikidataId =
     (case fetchWikidataEntity h wikidataId of
        Inl err \<Rightarrow> Inl err
      | Inr None \<Rightarrow> Inl TypeError
      | Inr (Some wikidataEntity) \<Rightarrow>
          Inr (foldl then_enrich (base_entity lang title wikidataId wikidataEntity, {#})
                 (enrichments h lang title)))"

record candidate =
  cand_title :: string
  cand_wikidataId :: string

datatype resolution = EntityResult entity | Disambiguation "candidate list"

definition add_candidate :: "candidate list \<Rightarrow> lookup_result option \<Rightarrow> candidate list" where
  "add_candidate candidates result =
     (case result of
        None \<Rightarrow> candidates
      | Some r \<Rightarrow>
          (case r_id r of
             None \<Rightarrow> candidates
           | Some i \<Rightarrow>
               if i \<noteq> [] \<and> find (\<lambda>c. cand_wikidataId c = i) candidates = None then
                 candidates @ [\<lparr>cand_title = realTitle r, cand_wikidataId = i\<rparr>]
               else candidates))"

text \<open>
  The \<open>for\<close> loop over the search results: each lookup is awaited before the next, and
  a rejected lookup leaves the loop and the function.
\<close>

fun collect_candidates ::
  "host \<Rightarrow> string \<Rightarrow> string list \<Rightarrow> candidate list \<Rightarrow> error + candidate list" where
  "collect_candidates h lang [] candidates = Inr candidates"
| "collect_candidates h lang (t # ts) candidates =
     (case getWikidataIdFromWikipedia h lang t of
        Inl err \<Rightarrow> Inl err
      | Inr result \<Rightarrow> collect_candidates h lang ts (add_candidate candidates result))"

definition no_result_message :: "string \<Rightarrow> string" where
  "no_result_message searchTerm =
     ''Aucun r'' @ e_acute @ ''sultat trouv'' @ e_acute @ '' pour '' @ dquote @ searchTerm @ dquote"

definition no_article_message :: "string \<Rightarrow> string" where
  "no_article_message searchTerm =
     ''Aucun article valide trouv'' @ e_acute @ '' pour '' @ dquote @ searchTerm @ dquote"

text \<open>
  The \<open>catch\<close> of \<open>resolveEntity\<close> logs and rethrows, so every error below reaches
  the caller as it is.
\<close>

definition resolveEntity ::
  "host \<Rightarrow> string \<Rightarrow> string \<Rightarrow> error + resolution \<times> string multiset" where
  "resolveEntity h lang searchTerm =
     (case searchWikipedia h lang searchTerm of
        Inl err \<Rightarrow> Inl err
      | Inr searchResults \<Rightarrow>
          if length searchResults = 0 then Inl (Error (no_result_message searchTerm))
          else
            (case collect_candidates h lang searchResults [] of
               Inl err \<Rightarrow> Inl err
             | Inr candidates \<Rightarrow>
                 if length candidates = 0 then Inl (Error (no_article_message searchTerm))
                 else if length candidates = 1 then
                   (case resolveEntityFromCandidate h lang
                           (cand_title (candidates ! 0)) (cand_wikidataId (candidates ! 0)) of
                      Inl err \<Rightarrow> Inl err
                    | Inr el \<Rightarrow> Inr (EntityResult (fst el), snd el))
                 else Inr (Disambiguation candidates, {#})))"

section \<open>Graph builder\<close>

definition SCORES_STRUCTURAL :: int where
  "SCORES_STRUCTURAL = 3"

definition SCORES_CONTEXTUAL :: int where
  "SCORES_CONTEXTUAL = 2"

definition SCORES_ASSOCIATIVE :: int where
  "SCORES_ASSOCIATIVE = 1"

definition IMPORTANT_PROPERTIES :: "(string \<times> string) list" where
  "IMPORTANT_PROPERTIES =
     [(''P31'', ''type''), (''P106'', ''occupation''), (''P800'', ''notable_work''),
      (''P136'', ''genre''), (''P101'', ''field_of_work''), (''P737'', ''influenced_by''),
      (''P175'', ''performer''), (''P161'', ''cast_member''), (''P57'', ''director''),
      (''P279'', ''subclass_of'')]"

subsection \<open>Noise filter\<close>

definition technical :: "string list" where
  "technical =
     [''Aide:'', ''Mod'' @ e_grave @ ''le:'', ''Wikip'' @ e_acute @ ''dia:'', ''Portail:'',
      ''Cat'' @ e_acute @ ''gorie:'', ''Fichier:'', ''Projet:'', ''Discussion:'',
      ''Sp'' @ e_acute @ ''cial:'', ''Liste de'']"

definition months :: "string list" where
  "months =
     [''janvier'', ''f'' @ e_acute @ ''vrier'', ''mars'', ''avril'', ''mai'', ''juin'',
      ''juillet'', ''ao'' @ u_circ @ ''t'', ''septembre'', ''octobre'', ''novembre'',
      ''d'' @ e_acute @ ''cembre'']"

definition siecle :: string where
  "siecle = ''si'' @ e_grave @ ''cle''"

definition isLinkNoise :: "host \<Rightarrow> string \<Rightarrow> bool" where
  "isLinkNoise h title =
     (if all_digits title then True
      else if includes_str title siecle then True
      else if list_ex (\<lambda>p. startsWith title p) technical then True
      else if list_ex (\<lambda>m. includes_str (toLowerCase h title) m) months then True
      else False)"

subsection \<open>Candidate relations\<close>

record connected =
  c_id :: string
  c_label :: string
  c_type :: string
  c_score :: int
  c_source :: string

text \<open>
  \<open>connectedMap\<close> is a JavaScript \<open>Map\<close>: keys in insertion order, and \<open>set\<close> on a
  key already present replaces the value where it stands. That is \<open>AList.update\<close>.
\<close>

type_synonym connectedMap = "(string \<times> connected) list"

definition add_claim :: "string \<Rightarrow> connectedMap \<Rightarrow> claim \<Rightarrow> connectedMap" where
  "add_claim relationType m c =
     (case value_id c of
        Some i \<Rightarrow>
          AList.update i
            \<lparr>c_id = i, c_label = i, c_type = relationType, c_score = SCORES_STRUCTURAL,
             c_source = ''wikidata''\<rparr> m
      | None \<Rightarrow> m)"

definition add_property :: "claims \<Rightarrow> connectedMap \<Rightarrow> string \<times> string \<Rightarrow> connectedMap" where
  "add_property cl m pr =
     (case map_of cl (fst pr) of
        Some cs \<Rightarrow> foldl (add_claim (snd pr)) m cs
      | None \<Rightarrow> m)"

definition add_link :: "host \<Rightarrow> connectedMap \<Rightarrow> nat \<times> string \<Rightarrow> connectedMap" where
  "add_link h m il =
     (let index = fst il; linkTitle = snd il in
      if isLinkNoise h linkTitle then m
      else let i = ''wiki:'' @ linkTitle in
        if map_of m i \<noteq> None then m
        else AList.update i
          \<lparr>c_id = i, c_label = linkTitle, c_type = ''related'',
           c_score = (if index < 10 then SCORES_CONTEXTUAL else SCORES_ASSOCIATIVE),
           c_source = ''wikipedia''\<rparr> m)"

definition wikidata_phase :: "entity \<Rightarrow> connectedMap" where
  "wikidata_phase e =
     (case wikidata (sources e) of
        Some wd \<Rightarrow> foldl (add_property (claims wd)) [] IMPORTANT_PROPERTIES
      | None \<Rightarrow> [])"

definition wikipedia_phase :: "host \<Rightarrow> entity \<Rightarrow> connectedMap \<Rightarrow> connectedMap" where
  "wikipedia_phase h e m =
     (case wikipedia (sources e) of
        Some wp \<Rightarrow>
          (case wp_links wp of
             Some links \<Rightarrow> foldl (add_link h) m (enumerate 0 links)
           | None \<Rightarrow> m)
      | None \<Rightarrow> m)"

text \<open>
  The result is the map's values sorted by descending score; \<open>Array.prototype.sort\<close>
  is stable, and so is \<open>sort_key\<close>.
\<close>

definition extractConnectedEntities :: "host \<Rightarrow> entity \<Rightarrow> connected list" where
  "extractConnectedEntities h e =
     sort_key (\<lambda>c. - c_score c) (map snd (wikipedia_phase h e (wikidata_phase e)))"

subsection \<open>Breadth-first construction\<close>

record node =
  n_id :: string
  n_label :: string
  n_type :: string
  n_level :: int
  n_isCenter :: "bool option"
  n_description :: "string option"
  n_thumbnail :: "string option"
  n_score :: "int option"

record edge =
  e_source :: string
  e_target :: string
  e_type :: string
  e_origin :: string
  e_value :: int

record graph =
  nodes :: "node list"
  edges :: "edge list"

text \<open>
  The loop's state: the graph under construction and the \<open>visited\<close> set. (The source
  also fills a \<open>nodeMap\<close> that nothing reads.)
\<close>

record bfs_state = graph +
  visited :: "string set"

definition createNode :: "entity \<Rightarrow> int \<Rightarrow> bool \<Rightarrow> node" where
  "createNode e level isCenter =
     \<lparr>n_id = entity_id e, n_label = name e, n_type = entity_type e, n_level = level,
      n_isCenter = Some isCenter, n_description = description e,
      n_thumbnail = (case wikipedia (sources e) of Some wp \<Rightarrow> wp_thumbnail wp | None \<Rightarrow> None),
      n_score = None\<rparr>"

definition addEdge ::
  "bfs_state \<Rightarrow> string \<Rightarrow> string \<Rightarrow> string \<Rightarrow> string \<Rightarrow> int \<Rightarrow> bfs_state" where
  "addEdge g fromId toId ty origin score =
     g\<lparr>edges := edges g @
        [\<lparr>e_source = fromId, e_target = toId, e_type = ty, e_origin = origin, e_value = score\<rparr>]\<rparr>"

definition limitedEntities :: "host \<Rightarrow> entity \<Rightarrow> int \<Rightarrow> connected list" where
  "limitedEntities h e maxNodesPerLevel =
     slice0 (filter (\<lambda>c. c_score c \<ge> 2) (extractConnectedEntities h e)) maxNodesPerLevel"

text \<open>One turn of the inner \<open>for\<close> loop.\<close>

definition visit :: "string \<Rightarrow> int \<Rightarrow> bfs_state \<Rightarrow> connected \<Rightarrow> bfs_state" where
  "visit fromId level st c =
     (if c_id c \<in> visited st then
        addEdge st fromId (c_id c) (c_type c) (c_source c) (c_score c)
      else
        addEdge
          (st\<lparr>visited := insert (c_id c) (visited st),
              nodes := nodes st @
                [\<lparr>n_id = c_id c, n_label = c_label c, n_type = c_type c,
                  n_level = level + 1, n_isCenter = None, n_description = None,
                  n_thumbnail = None, n_score = Some (c_score c)\<rparr>]\<rparr>)
          fromId (c_id c) (c_type c) (c_source c) (c_score c))"

text \<open>
  The \<open>while (queue.length > 0)\<close> loop. Its body takes the head of the queue with
  \<open>shift\<close> and never pushes, so the loop is a recursion on the queue.
\<close>

fun bfs_loop :: "host \<Rightarrow> int \<Rightarrow> int \<Rightarrow> (entity \<times> int) list \<Rightarrow> bfs_state \<Rightarrow> bfs_state" where
  "bfs_loop h depth maxNodesPerLevel [] st = st"
| "bfs_loop h depth maxNodesPerLevel ((e, level) # queue) st =
     (if level \<ge> depth then bfs_loop h depth maxNodesPerLevel queue st
      else bfs_loop h depth maxNodesPerLevel queue
             (foldl (visit (entity_id e) level) st (limitedEntities h e maxNodesPerLevel)))"

subsection \<open>Label resolution\<close>

text \<open>
  \<open>labels[id] = data.entities[id]?.labels?.[lang]?.value || id\<close>, for every requested id
  when the response has an \<open>entities\<close> object; the empty object when the request is
  rejected or the response has none.
\<close>

definition label_of :: "(string \<times> (string \<times> string) list) list \<Rightarrow> string \<Rightarrow> string \<Rightarrow> string" where
  "label_of ents lang i =
     (case map_of ents i of
        Some ls \<Rightarrow>
          (case map_of ls lang of
             Some v \<Rightarrow> if v \<noteq> [] then v else i
           | None \<Rightarrow> i)
      | None \<Rightarrow> i)"

definition fetchWikidataLabels :: "host \<Rightarrow> string list \<Rightarrow> (string \<times> string) list" where
  "fetchWikidataLabels h ids =
     (if ids = [] then []
      else let lang = ''fr'' in
        case wbgetentities h ids lang of
          Inl err \<Rightarrow> []
        | Inr data \<Rightarrow>
            (case wb_entities data of
               Some ents \<Rightarrow> map (\<lambda>i. (i, label_of ents lang i)) ids
             | None \<Rightarrow> []))"

definition apply_label :: "(string \<times> string) list \<Rightarrow> node \<Rightarrow> node" where
  "apply_label labelsMap n =
     (case map_of labelsMap (n_id n) of
        Some l \<Rightarrow> if l \<noteq> [] then n\<lparr>n_label := l\<rparr> else n
      | None \<Rightarrow> n)"

definition qidsToTranslate :: "node list \<Rightarrow> string list" where
  "qidsToTranslate ns = map n_id (filter (\<lambda>n. startsWith (n_id n) ''Q'') ns)"

definition initial_state :: "entity \<Rightarrow> bfs_state" where
  "initial_state centerEntity =
     \<lparr>nodes = [createNode centerEntity 0 True], edges = [], visited = {entity_id centerEntity}\<rparr>"

definition buildGraph :: "host \<Rightarrow> entity \<Rightarrow> int \<Rightarrow> int \<Rightarrow> graph" where
  "buildGraph h centerEntity depth maxNodesPerLevel =
     (let st = bfs_loop h depth maxNodesPerLevel [(centerEntity, 0)] (initial_state centerEntity);
          qids = qidsToTranslate (nodes st)
      in if qids \<noteq> [] then
           \<lparr>nodes = map (apply_label (fetchWikidataLabels h qids)) (nodes st), edges = edges st\<rparr>
         else \<lparr>nodes = nodes st, edges = edges st\<rparr>)"

section \<open>Notions used by the properties\<close>

text \<open>The state the loop of \<open>buildGraph\<close> ends in, before the labels are resolved.\<close>

definition loop_result :: "host \<Rightarrow> entity \<Rightarrow> int \<Rightarrow> int \<Rightarrow> bfs_state" where
  "loop_result h e depth maxNodesPerLevel =
     bfs_loop h depth maxNodesPerLevel [(e, 0)] (initial_state e)"

text \<open>
  The invariant of the loop: the visited set is the set of node ids, no id stands twice,
  every edge joins visited ids, and one node is the center.
\<close>

definition graph_inv :: "bfs_state \<Rightarrow> bool" where
  "graph_inv st =
     (set (map n_id (nodes st)) = visited st \<and> distinct (map n_id (nodes st)) \<and>
      (\<forall>ed \<in> set (edges st). e_source ed \<in> visited st \<and> e_target ed \<in> visited st) \<and>
      length (filter (\<lambda>n. n_isCenter n = Some True) (nodes st)) = 1)"

text \<open>
  The candidates that become nodes in one pass of the inner loop from the visited set
  \<open>V\<close>: those whose id was not visited when their turn came.
\<close>

fun new_candidates :: "string set \<Rightarrow> connected list \<Rightarrow> connected list" where
  "new_candidates V [] = []"
| "new_candidates V (c # cs) =
     (if c_id c \<in> V then new_candidates V cs else c # new_candidates (insert (c_id c) V) cs)"

text \<open>The node and the edge one candidate gives.\<close>

definition node_of :: "int \<Rightarrow> connected \<Rightarrow> node" where
  "node_of level c =
     \<lparr>n_id = c_id c, n_label = c_label c, n_type = c_type c, n_level = level + 1,
      n_isCenter = None, n_description = None, n_thumbnail = None, n_score = Some (c_score c)\<rparr>"

definition edge_of :: "string \<Rightarrow> connected \<Rightarrow> edge" where
  "edge_of fromId c =
     \<lparr>e_source = fromId, e_target = c_id c, e_type = c_type c, e_origin = c_source c,
      e_value = c_score c\<rparr>"

text \<open>
  The ids of the structural relations of an entity: the item ids of the claims under the
  allow-listed properties. And the article's link list.
\<close>

definition property_ids :: "claims \<Rightarrow> string \<times> string \<Rightarrow> string list" where
  "property_ids cl pr =
     (case map_of cl (fst pr) of Some cs \<Rightarrow> List.map_filter value_id cs | None \<Rightarrow> [])"

definition structural_ids :: "entity \<Rightarrow> string list" where
  "structural_ids e =
     (case wikidata (sources e) of
        Some wd \<Rightarrow> concat (map (property_ids (claims wd)) IMPORTANT_PROPERTIES)
      | None \<Rightarrow> [])"

definition links_of :: "entity \<Rightarrow> string list" where
  "links_of e =
     (case wikipedia (sources e) of
        Some wp \<Rightarrow> (case wp_links wp of Some links \<Rightarrow> links | None \<Rightarrow> [])
      | None \<Rightarrow> [])"

text \<open>The candidate a structural relation gives, and the one a textual link gives.\<close>

definition structural_candidate :: "string \<Rightarrow> string \<Rightarrow> connected" where
  "structural_candidate relationType i =
     \<lparr>c_id = i, c_label = i, c_type = relationType, c_score = 3, c_source = ''wikidata''\<rparr>"

definition link_candidate :: "nat \<Rightarrow> string \<Rightarrow> connected" where
  "link_candidate index linkTitle =
     \<lparr>c_id = ''wiki:'' @ linkTitle, c_label = linkTitle, c_type = ''related'',
      c_score = (if index < 10 then 2 else 1), c_source = ''wikipedia''\<rparr>"

text \<open>A map that holds structural candidates only, each under its id.\<close>

definition structural_map :: "connectedMap \<Rightarrow> bool" where
  "structural_map m = (\<forall>k v. map_of m k = Some v \<longrightarrow> (\<exists>r. v = structural_candidate r k))"

text \<open>
  The score of a textual link by its place in the article's link list: 2 when the title
  stands among the first 10 links, 1 when it only stands later.
\<close>

definition link_score :: "entity \<Rightarrow> string \<Rightarrow> int" where
  "link_score e t = (if t \<in> set (take 10 (links_of e)) then 2 else 1)"

subsection \<open>Notions of the resolver's properties\<close>

text \<open>
  The canonical id a title resolves to (\<open>None\<close> when the title has no page, or the
  page no item), the ids found for a list of titles, and the condition that every lookup
  of the list is answered rather than rejected.
\<close>

definition lookup_id :: "host \<Rightarrow> string \<Rightarrow> string \<Rightarrow> string option" where
  "lookup_id h lang t =
     (case getWikidataIdFromWikipedia h lang t of
        Inr (Some r) \<Rightarrow> (case r_id r of Some i \<Rightarrow> if i \<noteq> [] then Some i else None | None \<Rightarrow> None)
      | _ \<Rightarrow> None)"

definition found_ids :: "host \<Rightarrow> string \<Rightarrow> string list \<Rightarrow> string list" where
  "found_ids h lang ts = List.map_filter (lookup_id h lang) ts"

definition lookups_answer :: "host \<Rightarrow> string \<Rightarrow> string list \<Rightarrow> bool" where
  "lookups_answer h lang ts =
     list_all (\<lambda>t. case getWikidataIdFromWikipedia h lang t of Inr r \<Rightarrow> True | Inl err \<Rightarrow> False) ts"

text \<open>What \<open>resolveEntity\<close> makes of the outcome of \<open>resolveEntityFromCandidate\<close>.\<close>

definition as_entity_result ::
  "error + enriched \<Rightarrow> error + resolution \<times> string multiset" where
  "as_entity_result r = (case r of Inl err \<Rightarrow> Inl err | Inr el \<Rightarrow> Inr (EntityResult (fst el), snd el))"

text \<open>
  The keys of \<open>entity.sources\<close> the enrichments write, and the value under a key
  (\<open>None\<close> when the key is absent).
\<close>

datatype source_key =
    KWikipedia | KExternalLinks | KMusicBrainz | KTMDB | KOpenLibrary | KCommons
  | KOpenStreetMap | KArxiv | KArchiveOrg

datatype payload =
    PWikipedia wikipedia_source
  | PExternalLinks "(string \<times> json list) list"
  | PMusicBrainz musicbrainz_source
  | PTMDB json
  | POpenLibrary openlibrary_source
  | PCommons "commons_image list"
  | POpenStreetMap openstreetmap_source
  | PArxiv "arxiv_paper list"
  | PArchiveOrg archive_source

fun source_at :: "source_key \<Rightarrow> sources \<Rightarrow> payload option" where
  "source_at KWikipedia s = map_option PWikipedia (wikipedia s)"
| "source_at KExternalLinks s = map_option PExternalLinks (external_links s)"
| "source_at KMusicBrainz s = map_option PMusicBrainz (musicbrainz s)"
| "source_at KTMDB s = map_option PTMDB (tmdb s)"
| "source_at KOpenLibrary s = map_option POpenLibrary (openlibrary s)"
| "source_at KCommons s = map_option PCommons (wikimedia_commons s)"
| "source_at KOpenStreetMap s = map_option POpenStreetMap (openstreetmap s)"
| "source_at KArxiv s = map_option PArxiv (arxiv s)"
| "source_at KArchiveOrg s = map_option PArchiveOrg (archive_org s)"

text \<open>What an enrichment reads of an entity, and leaves as it is.\<close>

definition same_inputs :: "entity \<Rightarrow> entity \<Rightarrow> bool" where
  "same_inputs e e' =
     (entity_id e' = entity_id e \<and> name e' = name e \<and> description e' = description e \<and>
      entity_type e' = entity_type e \<and> identifiers e' = identifiers e \<and>
      wikidata (sources e') = wikidata (sources e))"

text \<open>
  An enrichment writes only the key \<open>k\<close>: it keeps what the enrichments read and every
  other key, and what it stores and logs depends only on what it reads and on the key's
  value before.
\<close>

definition writes_only :: "source_key \<Rightarrow> (entity \<Rightarrow> enriched) \<Rightarrow> bool" where
  "writes_only k f =
     (\<forall>e. same_inputs e (fst (f e)) \<and>
          (\<forall>k'. k' \<noteq> k \<longrightarrow> source_at k' (sources (fst (f e))) = source_at k' (sources e)) \<and>
          (\<forall>e'. same_inputs e e' \<and> source_at k (sources e') = source_at k (sources e) \<longrightarrow>
                source_at k (sources (fst (f e'))) = source_at k (sources (fst (f e))) \<and>
                snd (f e') = snd (f e)))"

text \<open>The nine enrichments, each with the key it writes.\<close>

definition keyed_enrichments ::
  "host \<Rightarrow> string \<Rightarrow> string \<Rightarrow> (source_key \<times> (entity \<Rightarrow> enriched)) list" where
  "keyed_enrichments h lang t =
     [(KWikipedia, enrichFromWikipedia h lang t),
      (KExternalLinks, enrichFromWikipediaExternalLinks h lang t),
      (KMusicBrainz, enrichFromMusicBrainz h), (KTMDB, enrichFromTMDB h lang),
      (KOpenLibrary, enrichFromOpenLibrary h), (KCommons, enrichFromWikimediaCommons h),
      (KOpenStreetMap, enrichFromOpenStreetMap h), (KArxiv, enrichFromArxiv h),
      (KArchiveOrg, enrichFromArchiveOrg h)]"

text \<open>What the encyclopedic-summary enrichment stores before it asks for the links.\<close>

definition summary_only :: "summary_response \<Rightarrow> wikipedia_source" where
  "summary_only s =
     \<lparr>wp_title = sum_title s, wp_extract = sum_extract s, wp_thumbnail = sum_thumbnail_source s,
      wp_url = sum_desktop_page s, wp_links = None\<rparr>"

text \<open>The keys, in the order of the enrichments, and what each enrichment logs when it fails.\<close>

definition all_keys :: "source_key list" where
  "all_keys =
     [KWikipedia, KExternalLinks, KMusicBrainz, KTMDB, KOpenLibrary, KCommons, KOpenStreetMap,
      KArxiv, KArchiveOrg]"

fun warning :: "source_key \<Rightarrow> string" where
  "warning KWikipedia = ''Wikipedia enrichment failed:''"
| "warning KExternalLinks = ''External links enrichment failed:''"
| "warning KMusicBrainz = ''MusicBrainz enrichment failed:''"
| "warning KTMDB = ''TMDB enrichment failed:''"
| "warning KOpenLibrary = ''OpenLibrary enrichment failed:''"
| "warning KCommons = ''Wikimedia Commons enrichment failed:''"
| "warning KOpenStreetMap = ''OpenStreetMap enrichment failed:''"
| "warning KArxiv = ''arXiv enrichment failed:''"
| "warning KArchiveOrg = ''Archive.org enrichment failed:''"

text \<open>
  An enrichment fails when its \<open>try\<close> block throws: a request it awaits is rejected,
  or it reads a property of a value that is not there. Which requests it makes depends on
  the entity's name, type and identifiers.
\<close>

fun enrichment_fails :: "host \<Rightarrow> string \<Rightarrow> string \<Rightarrow> entity \<Rightarrow> source_key \<Rightarrow> bool" where
  "enrichment_fails h lang t e KWikipedia =
     (isl (page_summary h lang t) \<or> isl (parse_links h lang t))"
| "enrichment_fails h lang t e KExternalLinks = isl (parse_externallinks h lang t)"
| "enrichment_fails h lang t e KMusicBrainz =
     (case map_of (identifiers e) ''musicbrainz'' of
        Some mbId \<Rightarrow> isl (musicbrainz_artist h (ident_string mbId))
      | None \<Rightarrow> False)"
| "enrichment_fails h lang t e KTMDB =
     (case map_of (identifiers e) ''tmdb'' of
        Some tmdbId \<Rightarrow>
          (case TMDB_API_KEY of
             Some k \<Rightarrow> isl (tmdb_movie h (ident_string tmdbId) k lang)
           | None \<Rightarrow> False)
      | None \<Rightarrow> False)"
| "enrichment_fails h lang t e KOpenLibrary =
     (case map_of (identifiers e) ''openlibrary'' of
        None \<Rightarrow> False
      | Some (IdValue (StringValue olId)) \<Rightarrow>
          if startsWith olId ''OL'' \<and> includes_str olId ''A'' then
            isl (openlibrary_get h (''https://openlibrary.org/authors/'' @ olId @ ''.json''))
          else if startsWith olId ''OL'' \<and> includes_str olId ''W'' then
            isl (openlibrary_get h (''https://openlibrary.org/works/'' @ olId @ ''.json''))
          else False
      | Some other \<Rightarrow> True)"
| "enrichment_fails h lang t e KCommons =
     (case commons_search h (name e) of
        Inl rj \<Rightarrow> True
      | Inr None \<Rightarrow> False
      | Inr (Some pages) \<Rightarrow> list_ex (\<lambda>pg. cp_imageinfo pg = Some []) pages)"
| "enrichment_fails h lang t e KOpenStreetMap =
     (case map_of (identifiers e) ''coordinates'' of
        Some c \<Rightarrow>
          isl (nominatim_reverse h (js_string (fst (coordinates_pair c)))
                 (js_string (snd (coordinates_pair c))))
      | None \<Rightarrow> False)"
| "enrichment_fails h lang t e KArxiv =
     (entity_type e = ''concept'' \<and> isl (arxiv_query h (name e)))"
| "enrichment_fails h lang t e KArchiveOrg =
     (if entity_type e = ''person'' then
        isl (archive_search h (''creator:'' @ dquote @ name e @ dquote @ '' AND '' @
               ''(mediatype:audio OR mediatype:movies)''))
      else if entity_type e = ''concept'' then False
      else isl (archive_search h (''title:'' @ dquote @ name e @ dquote @ '' AND '' @ [])))"

text \<open>
  The types the \<open>Entity\<close> typedef of the source documents
  (\<open>person|place|work|concept|entity\<close>), and the values of the lookup table with the
  default.
\<close>

definition documented_types :: "string list" where
  "documented_types = [''person'', ''place'', ''work'', ''concept'', ''entity'']"

definition returned_types :: "string list" where
  "returned_types = [''person'', ''film'', ''series'', ''book'', ''concept'', ''place'', ''entity'']"

subsection \<open>Example inputs\<close>

text \<open>
  A host whose every request is rejected, with a \<open>toLowerCase\<close> that is right on ASCII
  titles; the examples below answer some of the requests.
\<close>

definition ascii_lower :: "char \<Rightarrow> char" where
  "ascii_lower c =
     (case map_of (zip ''ABCDEFGHIJKLMNOPQRSTUVWXYZ'' ''abcdefghijklmnopqrstuvwxyz'') c of
        Some d \<Rightarrow> d
      | None \<Rightarrow> c)"

definition offline :: host where
  "offline =
     \<lparr>toLowerCase = map ascii_lower,
      match_entries = (\<lambda>xml. None),
      match_tag = (\<lambda>tag entry. None),
      categorize_links = (\<lambda>nm links. []),
      opensearch = (\<lambda>lang query. Inl (Rejected ''offline'')),
      pageprops = (\<lambda>lang t. Inl (Rejected ''offline'')),
      entitydata = (\<lambda>i. Inl (Rejected ''offline'')),
      page_summary = (\<lambda>lang t. Inl (Rejected ''offline'')),
      parse_links = (\<lambda>lang t. Inl (Rejected ''offline'')),
      parse_externallinks = (\<lambda>lang t. Inl (Rejected ''offline'')),
      musicbrainz_artist = (\<lambda>i. Inl (Rejected ''offline'')),
      tmdb_movie = (\<lambda>i k lang. Inl (Rejected ''offline'')),
      openlibrary_get = (\<lambda>u. Inl (Rejected ''offline'')),
      commons_search = (\<lambda>nm. Inl (Rejected ''offline'')),
      nominatim_reverse = (\<lambda>lat lon. Inl (Rejected ''offline'')),
      arxiv_query = (\<lambda>nm. Inl (Rejected ''offline'')),
      archive_search = (\<lambda>q. Inl (Rejected ''offline'')),
      wbgetentities = (\<lambda>ids lang. Inl (Rejected ''offline''))\<rparr>"

text \<open>A label service that knows two items, each in French and in English.\<close>

definition label_table :: "(string \<times> (string \<times> string) list) list" where
  "label_table =
     [(''Q5'', [(''fr'', ''humain''), (''en'', ''human'')]),
      (''Q42'', [(''fr'', ''Douglas Adams''), (''en'', ''Douglas Adams'')])]"

definition label_service :: "string list \<Rightarrow> string \<Rightarrow> rejection + wb_response" where
  "label_service ids lang =
     Inr \<lparr>wb_entities = Some
       (map (\<lambda>il. (fst il, filter (\<lambda>lv. fst lv = lang) (snd il)))
          (filter (\<lambda>il. fst il \<in> set ids) label_table))\<rparr>"

definition host0 :: host where
  "host0 = offline\<lparr>wbgetentities := label_service\<rparr>"

definition adams :: entity where
  "adams =
     \<lparr>entity_id = ''Q42'', name = ''Douglas Adams'', description = Some ''English writer'',
      entity_type = ''person'', identifiers = [],
      sources = no_sources
        \<lparr>wikidata := Some \<lparr>claims =
             [(''P31'', [Claim (Some (EntityIdValue ''Q5''))]),
              (''P106'', [Claim (Some (EntityIdValue ''Q36180'')), Claim None]),
              (''P18'', [Claim (Some (StringValue ''Douglas adams portrait.jpg''))])],
             sitelinks = ''{}''\<rparr>,
         wikipedia := Some \<lparr>wp_title = Some ''Douglas Adams'', wp_extract = None,
             wp_thumbnail = Some ''thumb.jpg'', wp_url = None,
             wp_links = Some [''1952'', ''Cambridge'', ''Mars 2001'', ''Liste de romans'',
               ''Cambridge'', ''Monty Python'', ''BBC'', ''Londres'', ''Apple'', ''Radio'',
               ''Rhinoceros'', ''Essex'']\<rparr>\<rparr>\<rparr>"

text \<open>An entity with a structural relation whose id is the synthetic id of one of its links.\<close>

definition jazz_fan :: entity where
  "jazz_fan =
     \<lparr>entity_id = ''Q1'', name = ''Jazz fan'', description = None,
      entity_type = ''entity'', identifiers = [],
      sources = no_sources
        \<lparr>wikidata := Some \<lparr>claims = [(''P136'', [Claim (Some (EntityIdValue ''wiki:Jazz''))])],
             sitelinks = ''{}''\<rparr>,
         wikipedia := Some \<lparr>wp_title = None, wp_extract = None, wp_thumbnail = None,
             wp_url = None, wp_links = Some [''Jazz'', ''Blues'']\<rparr>\<rparr>\<rparr>"

text \<open>A record whose first "instance of" value is the item of films.\<close>

definition film_record :: wikidata_entity where
  "film_record =
     \<lparr>labels = [(''fr'', ''Metropolis'')], descriptions = [],
      wd_claims = Some [(''P31'', [Claim (Some (EntityIdValue ''Q11424''))])],
      wd_sitelinks = None\<rparr>"

text \<open>
  A host that answers searches and lookups about one author: two titles that lead to the
  same item, a film with an item of its own whose record cannot be fetched, a title
  without a page and a page without an item. The second host also answers the summary
  request, but not the links request.
\<close>

definition tolkien_record :: wikidata_entity where
  "tolkien_record =
     \<lparr>labels = [(''fr'', ''J. R. R. Tolkien''), (''en'', ''J. R. R. Tolkien'')],
      descriptions = [(''en'', ''English philologist and author'')],
      wd_claims = Some
        [(''P31'', [Claim (Some (EntityIdValue ''Q5''))]),
         (''P648'', [Claim (Some (StringValue ''OL26320A''))]),
         (''P800'', [Claim (Some (EntityIdValue ''Q15228''))])],
      wd_sitelinks = None\<rparr>"

definition tolkien_pages :: "(string \<times> (string \<times> page) list option) list" where
  "tolkien_pages =
     [(''Tolkien'', Some [(''1234'', \<lparr>p_wikibase_item = Some ''Q892'', p_title = ''J. R. R. Tolkien''\<rparr>)]),
      (''J. R. R. Tolkien'',
         Some [(''1234'', \<lparr>p_wikibase_item = Some ''Q892'', p_title = ''J. R. R. Tolkien''\<rparr>)]),
      (''Tolkien (film)'',
         Some [(''777'', \<lparr>p_wikibase_item = Some ''Q56856343'', p_title = ''Tolkien (film)''\<rparr>)]),
      (''Tolkien Estate'', Some [(''-1'', \<lparr>p_wikibase_item = None, p_title = ''Tolkien Estate''\<rparr>)]),
      (''Tolkienology'', Some [(''55'', \<lparr>p_wikibase_item = None, p_title = ''Tolkienology''\<rparr>)])]"

definition tolkien_searches :: "(string \<times> string list) list" where
  "tolkien_searches =
     [(''Tolkien'', [''Tolkien'', ''J. R. R. Tolkien'', ''Tolkien (film)'', ''Tolkien Estate'']),
      (''Bilbo'', [''Tolkien'', ''J. R. R. Tolkien'']),
      (''Biopic'', [''Tolkien (film)'']),
      (''Estate'', [''Tolkien Estate'', ''Tolkienology''])]"

definition tolkien_host :: host where
  "tolkien_host = offline
     \<lparr>opensearch := (\<lambda>lang query.
        case map_of tolkien_searches query of Some ts \<Rightarrow> Inr (Some ts) | None \<Rightarrow> Inr (Some [])),
      pageprops := (\<lambda>lang t. case map_of tolkien_pages t of Some r \<Rightarrow> Inr r | None \<Rightarrow> Inr None),
      entitydata := (\<lambda>i. if i = ''Q892'' then Inr (Some [(''Q892'', tolkien_record)])
                          else Inl (Rejected ''offline''))\<rparr>"

definition links_down :: host where
  "links_down = tolkien_host
     \<lparr>page_summary := (\<lambda>lang t.
        Inr \<lparr>sum_title = Some t, sum_extract = Some ''English writer'',
             sum_thumbnail_source = None, sum_desktop_page = None\<rparr>)\<rparr>"

text \<open>A host on which the lookup of the third title of every search is rejected.\<close>

definition lookup_down :: host where
  "lookup_down = tolkien_host
     \<lparr>opensearch := (\<lambda>lang query.
        Inr (Some [''Tolkien'', ''Tolkien (film)'', ''Tolkien Estate''])),
      pageprops := (\<lambda>lang t.
        if t = ''Tolkien Estate'' then Inl (Rejected ''offline'')
        else pageprops tolkien_host lang t)\<rparr>"

section \<open>Properties of the graph builder\<close>

subsection \<open>Shape of the loop's result\<close>


lemma visit_nodes:
  "nodes (visit fromId level st c) =
     nodes st @ (if c_id c \<in> visited st then [] else [node_of level c])"
  by (simp add: visit_def addEdge_def node_of_def)

lemma visit_edges: "edges (visit fromId level st c) = edges st @ [edge_of fromId c]"
  by (simp add: visit_def addEdge_def edge_of_def)

lemma visit_visited: "visited (visit fromId level st c) = insert (c_id c) (visited st)"
  by (auto simp: visit_def addEdge_def)

lemma foldl_visit_shape:
  "nodes (foldl (visit fromId level) st cs) =
     nodes st @ map (node_of level) (new_candidates (visited st) cs) \<and>
   edges (foldl (visit fromId level) st cs) = edges st @ map (edge_of fromId) cs \<and>
   visited (foldl (visit fromId level) st cs) = visited st \<union> c_id ` set cs"
proof (induction cs arbitrary: st)
  case Nil
  show ?case by simp
next
  case (Cons c cs)
  show ?case
    using Cons.IH[of "visit fromId level st c"]
    by (simp add: visit_nodes visit_edges visit_visited insert_absorb)
qed

lemma loop_result_eq:
  "loop_result h e depth cap =
     (if 0 \<ge> depth then initial_state e
      else foldl (visit (entity_id e) 0) (initial_state e) (limitedEntities h e cap))"
  by (simp add: loop_result_def)

lemma loop_result_nodes:
  "nodes (loop_result h e depth cap) =
     createNode e 0 True #
     (if 0 \<ge> depth then []
      else map (node_of 0) (new_candidates {entity_id e} (limitedEntities h e cap)))"
  using foldl_visit_shape[of "entity_id e" 0 "initial_state e" "limitedEntities h e cap"]
  by (simp add: loop_result_eq initial_state_def)

lemma loop_result_edges:
  "edges (loop_result h e depth cap) =
     (if 0 \<ge> depth then [] else map (edge_of (entity_id e)) (limitedEntities h e cap))"
  using foldl_visit_shape[of "entity_id e" 0 "initial_state e" "limitedEntities h e cap"]
  by (simp add: loop_result_eq initial_state_def)

text \<open>The label pass changes labels and nothing else.\<close>

lemma buildGraph_nodes:
  "\<exists>f. nodes (buildGraph h e depth cap) = map f (nodes (loop_result h e depth cap)) \<and>
       (\<forall>n. n_id (f n) = n_id n \<and> n_isCenter (f n) = n_isCenter n \<and>
            n_level (f n) = n_level n \<and> n_type (f n) = n_type n \<and> n_score (f n) = n_score n)"
proof (cases "qidsToTranslate (nodes (loop_result h e depth cap)) = []")
  case True
  then have "nodes (buildGraph h e depth cap) = map (\<lambda>n. n) (nodes (loop_result h e depth cap))"
    by (simp add: buildGraph_def loop_result_def Let_def)
  then show ?thesis by blast
next
  case False
  let ?f = "apply_label (fetchWikidataLabels h (qidsToTranslate (nodes (loop_result h e depth cap))))"
  have "nodes (buildGraph h e depth cap) = map ?f (nodes (loop_result h e depth cap))"
    using False by (simp add: buildGraph_def loop_result_def Let_def)
  moreover have "\<forall>n. n_id (?f n) = n_id n \<and> n_isCenter (?f n) = n_isCenter n \<and>
      n_level (?f n) = n_level n \<and> n_type (?f n) = n_type n \<and> n_score (?f n) = n_score n"
    by (simp add: apply_label_def split: option.splits)
  ultimately show ?thesis by blast
qed

lemma buildGraph_edges:
  "edges (buildGraph h e depth cap) = edges (loop_result h e depth cap)"
  by (simp add: buildGraph_def loop_result_def Let_def)

lemma buildGraph_node_ids:
  "map n_id (nodes (buildGraph h e depth cap)) = map n_id (nodes (loop_result h e depth cap))"
proof -
  obtain f where "nodes (buildGraph h e depth cap) = map f (nodes (loop_result h e depth cap))"
    and "\<forall>n. n_id (f n) = n_id n"
    using buildGraph_nodes[of h e depth cap] by blast
  then show ?thesis by (simp add: comp_def)
qed

lemma buildGraph_filter_length:
  assumes "\<And>n n'. n_isCenter n' = n_isCenter n \<Longrightarrow> n_level n' = n_level n \<Longrightarrow> P n' = P n"
  shows "length (filter P (nodes (buildGraph h e depth cap))) =
         length (filter P (nodes (loop_result h e depth cap)))"
proof -
  obtain f where f: "nodes (buildGraph h e depth cap) = map f (nodes (loop_result h e depth cap))"
    and fp: "\<forall>n. n_isCenter (f n) = n_isCenter n \<and> n_level (f n) = n_level n"
    using buildGraph_nodes[of h e depth cap] by blast
  have pf: "P (f n) = P n" for n
    by (rule assms) (simp_all add: fp)
  have "filter P (map f ns) = map f (filter P ns)" for ns
    by (induction ns) (simp_all add: pf)
  then show ?thesis by (simp add: f)
qed

subsection \<open>The invariant\<close>

lemma visit_inv:
  assumes "graph_inv st" and "fromId \<in> visited st"
  shows "graph_inv (visit fromId level st c)"
  using assms by (auto simp: graph_inv_def visit_def addEdge_def)

lemma foldl_visit_inv:
  "graph_inv st \<Longrightarrow> fromId \<in> visited st \<Longrightarrow> graph_inv (foldl (visit fromId level) st cs)"
proof (induction cs arbitrary: st)
  case Nil
  then show ?case by simp
next
  case (Cons c cs)
  have a: "graph_inv (visit fromId level st c)"
    using Cons.prems by (rule visit_inv)
  have b: "fromId \<in> visited (visit fromId level st c)"
    using Cons.prems(2) by (simp add: visit_visited)
  from Cons.IH[OF a b] show ?case by simp
qed

lemma foldl_visit_visited_mono:
  "visited st \<subseteq> visited (foldl (visit fromId level) st cs)"
  using foldl_visit_shape[of fromId level st cs] by blast

lemma bfs_loop_inv:
  "graph_inv st \<Longrightarrow> (\<forall>q \<in> set queue. entity_id (fst q) \<in> visited st) \<Longrightarrow>
   graph_inv (bfs_loop h depth cap queue st)"
proof (induction h depth cap queue st rule: bfs_loop.induct)
  case (1 h depth cap st)
  then show ?case by simp
next
  case (2 h depth cap e level queue st)
  show ?case
  proof (cases "level \<ge> depth")
    case True
    then show ?thesis using 2 by simp
  next
    case False
    let ?st = "foldl (visit (entity_id e) level) st (limitedEntities h e cap)"
    have e: "entity_id e \<in> visited st"
      using "2.prems"(2) by simp
    have a: "graph_inv ?st"
      using "2.prems"(1) e by (rule foldl_visit_inv)
    have c: "\<forall>q \<in> set queue. entity_id (fst q) \<in> visited ?st"
      using "2.prems"(2) foldl_visit_visited_mono[of st "entity_id e" level] by auto
    show ?thesis using False "2.IH"(2)[OF False a c] by simp
  qed
qed

lemma initial_inv: "graph_inv (initial_state e)"
  by (simp add: graph_inv_def initial_state_def createNode_def)

lemma loop_result_inv: "graph_inv (loop_result h e depth cap)"
  unfolding loop_result_def
  by (rule bfs_loop_inv[OF initial_inv]) (simp add: initial_state_def)

subsection \<open>The example graph\<close>


lemma adams_node_ids:
  "map n_id (nodes (buildGraph host0 adams 1 20)) =
     [''Q42'', ''Q5'', ''Q36180'', ''wiki:Cambridge'', ''wiki:Monty Python'', ''wiki:BBC'',
      ''wiki:Londres'', ''wiki:Apple'', ''wiki:Radio'']"
  by code_simp

lemma adams_edge_ends:
  "map (\<lambda>ed. (e_source ed, e_target ed, e_value ed)) (edges (buildGraph host0 adams 1 20)) =
     [(''Q42'', ''Q5'', 3), (''Q42'', ''Q36180'', 3), (''Q42'', ''wiki:Cambridge'', 2),
      (''Q42'', ''wiki:Monty Python'', 2), (''Q42'', ''wiki:BBC'', 2),
      (''Q42'', ''wiki:Londres'', 2), (''Q42'', ''wiki:Apple'', 2), (''Q42'', ''wiki:Radio'', 2)]"
  by code_simp

subsection \<open>Graph invariant\<close>

text \<open>
  C3. In every graph \<open>buildGraph\<close> returns, for any center entity, depth and breadth
  cap, the source and the target of every edge are ids of nodes of the graph, no node id
  stands twice among the nodes, and exactly one node has \<open>isCenter = true\<close>.
\<close>

theorem buildGraph_invariant:
  "(\<forall>ed \<in> set (edges (buildGraph h e depth cap)).
      e_source ed \<in> set (map n_id (nodes (buildGraph h e depth cap))) \<and>
      e_target ed \<in> set (map n_id (nodes (buildGraph h e depth cap)))) \<and>
   distinct (map n_id (nodes (buildGraph h e depth cap))) \<and>
   length (filter (\<lambda>n. n_isCenter n = Some True) (nodes (buildGraph h e depth cap))) = 1"
proof -
  have len: "length (filter (\<lambda>n. n_isCenter n = Some True) (nodes (buildGraph h e depth cap))) =
      length (filter (\<lambda>n. n_isCenter n = Some True) (nodes (loop_result h e depth cap)))"
    by (rule buildGraph_filter_length) simp
  show ?thesis
    using loop_result_inv[of h e depth cap]
    unfolding buildGraph_node_ids buildGraph_edges len graph_inv_def
    by auto
qed

theorem buildGraph_invariant_witness:
  "distinct (map n_id (nodes (buildGraph host0 adams 1 20))) \<and>
   length (filter (\<lambda>n. n_isCenter n = Some True) (nodes (buildGraph host0 adams 1 20))) = 1 \<and>
   length (edges (buildGraph host0 adams 1 20)) = 8 \<and>
   set (map e_target (edges (buildGraph host0 adams 1 20)))
     \<subseteq> set (map n_id (nodes (buildGraph host0 adams 1 20)))"
  using buildGraph_invariant[of host0 adams 1 20] adams_edge_ends[THEN arg_cong, of length]
  by auto

subsection \<open>Candidates kept\<close>

lemma slice0_length: "0 \<le> n \<Longrightarrow> int (length (slice0 xs n)) \<le> n"
  by (simp add: slice0_def)

lemma slice0_prefix: "prefix (slice0 xs n) xs"
  by (simp add: slice0_def take_is_prefix)



lemma limited_prefix:
  "prefix (limitedEntities h e cap) (filter (\<lambda>c. 2 \<le> c_score c) (extractConnectedEntities h e))"
  unfolding limitedEntities_def by (rule slice0_prefix)




subsection \<open>Filter and breadth cap\<close>


lemma adams_limited:
  "map c_id (limitedEntities host0 adams 3) = [''Q5'', ''Q36180'', ''wiki:Cambridge'']"
  by code_simp



subsection \<open>Depth\<close>

text \<open>
  C10. For every center entity, every breadth cap and every depth \<open>d \<ge> 1\<close>,
  \<open>buildGraph\<close> at depth \<open>d\<close> gives the graph it gives at depth 1: the loop never
  enqueues a node it creates, so only the center entity is expanded (it is the source of
  every edge) and no node has a level above 1.
\<close>

theorem depth_irrelevant:
  "1 \<le> depth \<Longrightarrow>
     buildGraph h e depth cap = buildGraph h e 1 cap \<and>
     (\<forall>n \<in> set (nodes (buildGraph h e depth cap)). n_level n \<le> 1) \<and>
     (\<forall>ed \<in> set (edges (buildGraph h e depth cap)). e_source ed = entity_id e)"
proof -
  assume d: "1 \<le> depth"
  have eq: "buildGraph h e depth cap = buildGraph h e 1 cap"
    using d by (simp add: buildGraph_def)
  obtain f where f: "nodes (buildGraph h e depth cap) = map f (nodes (loop_result h e depth cap))"
    and fp: "\<forall>n. n_level (f n) = n_level n"
    using buildGraph_nodes[of h e depth cap] by blast
  have "\<forall>n \<in> set (nodes (loop_result h e depth cap)). n_level n \<le> 1"
    by (auto simp: loop_result_nodes createNode_def node_of_def)
  then have lv: "\<forall>n \<in> set (nodes (buildGraph h e depth cap)). n_level n \<le> 1"
    by (auto simp: f fp)
  have ed: "\<forall>ed \<in> set (edges (buildGraph h e depth cap)). e_source ed = entity_id e"
    by (auto simp: buildGraph_edges loop_result_edges edge_of_def)
  show ?thesis using eq lv ed by blast
qed

lemma adams_deep:
  "map n_level (nodes (buildGraph host0 adams 1 20)) = [0, 1, 1, 1, 1, 1, 1, 1, 1]"
  by code_simp

theorem depth_irrelevant_witness:
  "(1::int) \<le> 5 \<and> buildGraph host0 adams 5 20 = buildGraph host0 adams 1 20 \<and>
   map n_level (nodes (buildGraph host0 adams 5 20)) = [0, 1, 1, 1, 1, 1, 1, 1, 1]"
  using depth_irrelevant[of 5 host0 adams 20] adams_deep by simp

subsection \<open>Candidate relations\<close>

text \<open>After the structural pass the map holds the structural ids, each with a structural candidate.\<close>

lemma set_map_filter_value_id:
  "set (List.map_filter value_id cs) = {i. \<exists>c \<in> set cs. value_id c = Some i}"
  by (induction cs) (auto simp: List.map_filter_simps split: option.splits)

lemma add_claim_map_of:
  "map_of (add_claim r m c) k =
     (case value_id c of
        Some i \<Rightarrow> if k = i then Some (structural_candidate r i) else map_of m k
      | None \<Rightarrow> map_of m k)"
  by (simp add: add_claim_def structural_candidate_def SCORES_STRUCTURAL_def update_conv'
      split: option.splits)

lemma add_claim_distinct: "distinct (map fst m) \<Longrightarrow> distinct (map fst (add_claim r m c))"
  by (simp add: add_claim_def distinct_update split: option.splits)

lemma add_claim_structural: "structural_map m \<Longrightarrow> structural_map (add_claim r m c)"
  unfolding structural_map_def add_claim_map_of
  by (auto split: option.splits)

lemma add_claim_dom:
  "dom (map_of (add_claim r m c)) = dom (map_of m) \<union> set (List.map_filter value_id [c])"
  by (auto simp: add_claim_map_of dom_def List.map_filter_simps split: option.splits if_splits)

lemma foldl_add_claim:
  "distinct (map fst m) \<Longrightarrow> structural_map m \<Longrightarrow>
   distinct (map fst (foldl (add_claim r) m cs)) \<and>
   structural_map (foldl (add_claim r) m cs) \<and>
   dom (map_of (foldl (add_claim r) m cs)) = dom (map_of m) \<union> set (List.map_filter value_id cs)"
proof (induction cs arbitrary: m)
  case Nil
  then show ?case by (simp add: List.map_filter_simps)
next
  case (Cons c cs)
  have a: "distinct (map fst (add_claim r m c))"
    using Cons.prems(1) by (rule add_claim_distinct)
  have b: "structural_map (add_claim r m c)"
    using Cons.prems(2) by (rule add_claim_structural)
  show ?case
    using Cons.IH[OF a b] add_claim_dom[of r m c]
    by (auto simp: List.map_filter_simps split: option.splits)
qed

lemma add_property_facts:
  "distinct (map fst m) \<Longrightarrow> structural_map m \<Longrightarrow>
   distinct (map fst (add_property cl m pr)) \<and>
   structural_map (add_property cl m pr) \<and>
   dom (map_of (add_property cl m pr)) = dom (map_of m) \<union> set (property_ids cl pr)"
  using foldl_add_claim[of m "snd pr"]
  by (simp add: add_property_def property_ids_def split: option.splits)

lemma foldl_add_property:
  "distinct (map fst m) \<Longrightarrow> structural_map m \<Longrightarrow>
   distinct (map fst (foldl (add_property cl) m ps)) \<and>
   structural_map (foldl (add_property cl) m ps) \<and>
   dom (map_of (foldl (add_property cl) m ps)) =
     dom (map_of m) \<union> set (concat (map (property_ids cl) ps))"
proof (induction ps arbitrary: m)
  case Nil
  then show ?case by simp
next
  case (Cons pr ps)
  have f: "distinct (map fst (add_property cl m pr))" "structural_map (add_property cl m pr)"
    "dom (map_of (add_property cl m pr)) = dom (map_of m) \<union> set (property_ids cl pr)"
    using add_property_facts[OF Cons.prems, of cl pr] by auto
  show ?case
    using Cons.IH[OF f(1) f(2)] f(3) by auto
qed

lemma wikidata_phase_facts:
  "distinct (map fst (wikidata_phase e)) \<and> structural_map (wikidata_phase e) \<and>
   dom (map_of (wikidata_phase e)) = set (structural_ids e)"
proof (cases "wikidata (sources e)")
  case None
  then show ?thesis
    by (simp add: wikidata_phase_def structural_ids_def structural_map_def)
next
  case (Some wd)
  have "distinct (map fst ([] :: connectedMap))" "structural_map []"
    by (simp_all add: structural_map_def)
  from foldl_add_property[OF this, of "claims wd" IMPORTANT_PROPERTIES] Some
  show ?thesis
    by (simp add: wikidata_phase_def structural_ids_def)
qed

text \<open>The pass over the article's links keeps what the map holds and adds the rest.\<close>

lemma add_link_map_of:
  "map_of (add_link h m (i, t)) k =
     (case map_of m k of
        Some v \<Rightarrow> Some v
      | None \<Rightarrow> if \<not> isLinkNoise h t \<and> k = ''wiki:'' @ t then Some (link_candidate i t) else None)"
  by (auto simp: add_link_def Let_def link_candidate_def SCORES_CONTEXTUAL_def
      SCORES_ASSOCIATIVE_def update_conv' split: option.splits)

lemma add_link_distinct: "distinct (map fst m) \<Longrightarrow> distinct (map fst (add_link h m il))"
  by (simp add: add_link_def Let_def distinct_update)

lemma foldl_add_link_distinct:
  "distinct (map fst m) \<Longrightarrow> distinct (map fst (foldl (add_link h) m ils))"
  by (induction ils arbitrary: m) (simp_all add: add_link_distinct)

lemma foldl_add_link_keeps:
  "map_of m k = Some v \<Longrightarrow> map_of (foldl (add_link h) m ils) k = Some v"
proof (induction ils arbitrary: m)
  case Nil
  then show ?case by simp
next
  case (Cons il ils)
  obtain i t where il: "il = (i, t)" by (cases il)
  have "map_of (add_link h m il) k = Some v"
    using Cons.prems by (simp add: il add_link_map_of)
  then show ?case using Cons.IH by simp
qed

lemma foldl_add_link_new:
  "map_of m k = None \<Longrightarrow> map_of (foldl (add_link h) m (enumerate n ts)) k = Some v \<Longrightarrow>
   \<exists>i < length ts. \<not> isLinkNoise h (ts ! i) \<and> k = ''wiki:'' @ ts ! i \<and>
     v = link_candidate (n + i) (ts ! i) \<and> (\<forall>j < i. ts ! j \<noteq> ts ! i)"
proof (induction ts arbitrary: m n)
  case Nil
  then show ?case by simp
next
  case (Cons t ts)
  let ?m = "add_link h m (n, t)"
  have fin: "map_of (foldl (add_link h) ?m (enumerate (Suc n) ts)) k = Some v"
    using Cons.prems(2) by simp
  show ?case
  proof (cases "map_of ?m k")
    case None
    from Cons.IH[OF None fin] obtain i where i: "i < length ts" "\<not> isLinkNoise h (ts ! i)"
      "k = ''wiki:'' @ ts ! i" "v = link_candidate (Suc n + i) (ts ! i)" "\<forall>j < i. ts ! j \<noteq> ts ! i"
      by blast
    have "t \<noteq> ts ! i"
    proof
      assume "t = ts ! i"
      then have "map_of ?m k \<noteq> None"
        using i(2,3) by (simp add: add_link_map_of split: option.splits)
      then show False using None by simp
    qed
    then have "\<forall>j < Suc i. (t # ts) ! j \<noteq> (t # ts) ! Suc i"
      using i(5) by (auto simp: nth_Cons split: nat.splits)
    then show ?thesis
      using i by (intro exI[of _ "Suc i"]) simp
  next
    case (Some v')
    have "map_of (foldl (add_link h) ?m (enumerate (Suc n) ts)) k = Some v'"
      using Some by (rule foldl_add_link_keeps)
    then have vv: "v' = v" using fin by simp
    have "\<not> isLinkNoise h t \<and> k = ''wiki:'' @ t \<and> v' = link_candidate n t"
      using Some Cons.prems(1) by (simp add: add_link_map_of split: if_splits)
    then show ?thesis
      using vv by (intro exI[of _ 0]) simp
  qed
qed

lemma foldl_add_link_present:
  "t \<in> set ts \<Longrightarrow> \<not> isLinkNoise h t \<Longrightarrow>
   map_of (foldl (add_link h) m (enumerate n ts)) (''wiki:'' @ t) \<noteq> None"
proof (induction ts arbitrary: m n)
  case Nil
  then show ?case by simp
next
  case (Cons a ts)
  show ?case
  proof (cases "a = t")
    case True
    have "map_of (add_link h m (n, a)) (''wiki:'' @ t) \<noteq> None"
      using Cons.prems(2) True by (cases "map_of m (''wiki:'' @ t)") (simp_all add: add_link_map_of)
    then obtain v where "map_of (add_link h m (n, a)) (''wiki:'' @ t) = Some v"
      by blast
    then have "map_of (foldl (add_link h) (add_link h m (n, a)) (enumerate (Suc n) ts))
        (''wiki:'' @ t) = Some v"
      by (rule foldl_add_link_keeps)
    then show ?thesis by simp
  next
    case False
    then show ?thesis using Cons by simp
  qed
qed

lemma first_ten:
  assumes "i < length ts" and "\<forall>j < i. ts ! j \<noteq> ts ! i"
  shows "(i < 10) = (ts ! i \<in> set (take 10 ts))"
proof
  assume "i < 10"
  then show "ts ! i \<in> set (take 10 ts)"
    using assms(1) by (auto simp: in_set_conv_nth intro!: exI[of _ i])
next
  assume "ts ! i \<in> set (take 10 ts)"
  then obtain j where j: "j < length (take 10 ts)" "take 10 ts ! j = ts ! i"
    by (auto simp: in_set_conv_nth)
  then have "j < 10" "ts ! j = ts ! i" by auto
  then show "i < 10" using assms(2) by (metis not_less_iff_gr_or_eq order.strict_trans)
qed

lemma wikipedia_phase_eq:
  "wikipedia_phase h e m = foldl (add_link h) m (enumerate 0 (links_of e))"
  by (simp add: wikipedia_phase_def links_of_def split: option.splits)

lemma candidates_set:
  "set (extractConnectedEntities h e) = ran (map_of (wikipedia_phase h e (wikidata_phase e)))"
proof -
  have d: "distinct (map fst (wikipedia_phase h e (wikidata_phase e)))"
    using wikidata_phase_facts[of e] by (simp add: wikipedia_phase_eq foldl_add_link_distinct)
  show ?thesis
    unfolding extractConnectedEntities_def
    by (simp add: ran_distinct[OF d])
qed

lemma entry_cases:
  assumes k: "map_of (wikipedia_phase h e (wikidata_phase e)) k = Some c"
  shows "(k \<in> set (structural_ids e) \<and> (\<exists>r. c = structural_candidate r k)) \<or>
         (k \<notin> set (structural_ids e) \<and>
          (\<exists>t \<in> set (links_of e). \<not> isLinkNoise h t \<and> k = ''wiki:'' @ t \<and>
             c = \<lparr>c_id = ''wiki:'' @ t, c_label = t, c_type = ''related'',
                  c_score = link_score e t, c_source = ''wikipedia''\<rparr>))"
proof -
  let ?m1 = "wikidata_phase e"
  let ?m2 = "foldl (add_link h) ?m1 (enumerate 0 (links_of e))"
  have k2: "map_of ?m2 k = Some c"
    using k by (simp add: wikipedia_phase_eq)
  have facts: "structural_map ?m1" "dom (map_of ?m1) = set (structural_ids e)"
    using wikidata_phase_facts[of e] by auto
  show ?thesis
  proof (cases "map_of ?m1 k")
    case (Some v)
    then have "map_of ?m2 k = Some v" by (rule foldl_add_link_keeps)
    then have cv: "c = v" using k2 by simp
    obtain r where r: "v = structural_candidate r k"
      using facts(1) Some by (auto simp: structural_map_def)
    have "k \<in> set (structural_ids e)" using Some facts(2) by auto
    then show ?thesis using cv r by blast
  next
    case None
    from foldl_add_link_new[OF None k2] obtain i where i: "i < length (links_of e)"
      "\<not> isLinkNoise h (links_of e ! i)" "k = ''wiki:'' @ links_of e ! i"
      "c = link_candidate (0 + i) (links_of e ! i)" "\<forall>j < i. links_of e ! j \<noteq> links_of e ! i"
      by blast
    have a: "k \<notin> set (structural_ids e)" using None facts(2) by auto
    have b: "links_of e ! i \<in> set (links_of e)" using i(1) by simp
    have c: "c = \<lparr>c_id = ''wiki:'' @ links_of e ! i, c_label = links_of e ! i,
        c_type = ''related'', c_score = link_score e (links_of e ! i), c_source = ''wikipedia''\<rparr>"
      using i(4) first_ten[OF i(1) i(5)] by (simp add: link_candidate_def link_score_def)
    show ?thesis using a b c i(2,3) by blast
  qed
qed

lemma entry_key: "map_of (wikipedia_phase h e (wikidata_phase e)) k = Some c \<Longrightarrow> c_id c = k"
  using entry_cases[of h e k c] by (auto simp: structural_candidate_def)

lemma candidate_cases:
  assumes "c \<in> set (extractConnectedEntities h e)"
  shows "(c_id c \<in> set (structural_ids e) \<and> c_label c = c_id c \<and> c_score c = 3 \<and>
          c_source c = ''wikidata'') \<or>
         (c_id c \<notin> set (structural_ids e) \<and>
          (\<exists>t \<in> set (links_of e). \<not> isLinkNoise h t \<and> c_id c = ''wiki:'' @ t \<and>
             c_label c = t \<and> c_type c = ''related'' \<and> c_score c = link_score e t \<and>
             c_source c = ''wikipedia''))"
proof -
  obtain k where k: "map_of (wikipedia_phase h e (wikidata_phase e)) k = Some c"
    using assms by (auto simp: candidates_set ran_def)
  have ck: "c_id c = k" using k by (rule entry_key)
  from entry_cases[OF k] show ?thesis
  proof
    assume "k \<in> set (structural_ids e) \<and> (\<exists>r. c = structural_candidate r k)"
    then obtain r where "k \<in> set (structural_ids e)" "c = structural_candidate r k"
      by blast
    then show ?thesis by (simp add: structural_candidate_def)
  next
    assume "k \<notin> set (structural_ids e) \<and>
      (\<exists>t \<in> set (links_of e). \<not> isLinkNoise h t \<and> k = ''wiki:'' @ t \<and>
         c = \<lparr>c_id = ''wiki:'' @ t, c_label = t, c_type = ''related'',
              c_score = link_score e t, c_source = ''wikipedia''\<rparr>)"
    then obtain t where t: "k \<notin> set (structural_ids e)" "t \<in> set (links_of e)"
      "\<not> isLinkNoise h t" "k = ''wiki:'' @ t"
      "c = \<lparr>c_id = ''wiki:'' @ t, c_label = t, c_type = ''related'',
            c_score = link_score e t, c_source = ''wikipedia''\<rparr>"
      by blast
    have "c_id c = ''wiki:'' @ t \<and> c_label c = t \<and> c_type c = ''related'' \<and>
        c_score c = link_score e t \<and> c_source c = ''wikipedia''"
      by (simp add: t(5))
    then show ?thesis using t(1,2,3) ck by blast
  qed
qed

lemma structural_present:
  assumes "i \<in> set (structural_ids e)"
  shows "\<exists>c \<in> set (extractConnectedEntities h e). c_id c = i \<and> c_score c = 3"
proof -
  let ?m1 = "wikidata_phase e"
  have facts: "structural_map ?m1" "dom (map_of ?m1) = set (structural_ids e)"
    using wikidata_phase_facts[of e] by auto
  obtain v where v: "map_of ?m1 i = Some v" using assms facts(2) by auto
  then obtain r where r: "v = structural_candidate r i"
    using facts(1) by (auto simp: structural_map_def)
  have "map_of (wikipedia_phase h e ?m1) i = Some v"
    unfolding wikipedia_phase_eq using v by (rule foldl_add_link_keeps)
  then have "v \<in> set (extractConnectedEntities h e)"
    by (auto simp: candidates_set ran_def)
  moreover have "c_id v = i \<and> c_score v = 3"
    by (simp add: r structural_candidate_def)
  ultimately show ?thesis by blast
qed

lemma link_present:
  assumes "t \<in> set (links_of e)" and "\<not> isLinkNoise h t"
  shows "\<exists>c \<in> set (extractConnectedEntities h e). c_id c = ''wiki:'' @ t"
proof -
  obtain v where v: "map_of (wikipedia_phase h e (wikidata_phase e)) (''wiki:'' @ t) = Some v"
    using foldl_add_link_present[OF assms, of "wikidata_phase e" 0]
    by (auto simp: wikipedia_phase_eq)
  then have "v \<in> set (extractConnectedEntities h e)"
    by (auto simp: candidates_set ran_def)
  moreover have "c_id v = ''wiki:'' @ t"
    using v by (rule entry_key)
  ultimately show ?thesis by blast
qed

lemma wiki_inj: "(''wiki:'' @ a = ''wiki:'' @ b) = (a = b)"
  by simp

lemma limited_subset: "set (limitedEntities h e cap) \<subseteq> set (extractConnectedEntities h e)"
  using set_mono_prefix[OF limited_prefix[of h e cap]] by auto

lemma new_candidates_subset: "set (new_candidates V cs) \<subseteq> set cs"
  by (induction cs arbitrary: V) auto

subsection \<open>Scoring\<close>

text \<open>
  C5. For every entity, each relation derived from a claim under the allow-listed
  properties is a candidate of score 3; every other candidate comes from a textual link of
  the article's link list and scores 2 when the link stands among the first 10 of that
  list and 1 when it only stands later; and a textual link whose synthetic id
  \<open>wiki:title\<close> is the id of a structural relation already recorded keeps the
  structural candidate: its score, and the value of the edge to it, is 3.
\<close>

theorem candidate_scoring:
  "(\<forall>i \<in> set (structural_ids e).
      \<exists>c \<in> set (extractConnectedEntities h e). c_id c = i \<and> c_score c = 3) \<and>
   (\<forall>c \<in> set (extractConnectedEntities h e).
      (c_id c \<in> set (structural_ids e) \<longrightarrow> c_score c = 3 \<and> c_source c = ''wikidata'') \<and>
      (c_id c \<notin> set (structural_ids e) \<longrightarrow>
         (\<exists>t \<in> set (links_of e). c_id c = ''wiki:'' @ t \<and> c_source c = ''wikipedia'' \<and>
            c_score c = (if t \<in> set (take 10 (links_of e)) then 2 else 1)))) \<and>
   (\<forall>t \<in> set (links_of e). \<not> isLinkNoise h t \<longrightarrow>
      (\<exists>c \<in> set (extractConnectedEntities h e). c_id c = ''wiki:'' @ t \<and>
         c_score c = (if ''wiki:'' @ t \<in> set (structural_ids e) then 3
                      else if t \<in> set (take 10 (links_of e)) then 2 else 1))) \<and>
   (\<forall>ed \<in> set (edges (buildGraph h e depth cap)).
      e_target ed \<in> set (structural_ids e) \<longrightarrow> e_value ed = 3)"
proof -
  have one: "\<forall>i \<in> set (structural_ids e).
      \<exists>c \<in> set (extractConnectedEntities h e). c_id c = i \<and> c_score c = 3"
    using structural_present[of _ e h] by blast
  have two: "(c_id c \<in> set (structural_ids e) \<longrightarrow> c_score c = 3 \<and> c_source c = ''wikidata'') \<and>
      (c_id c \<notin> set (structural_ids e) \<longrightarrow>
         (\<exists>t \<in> set (links_of e). c_id c = ''wiki:'' @ t \<and> c_source c = ''wikipedia'' \<and>
            c_score c = (if t \<in> set (take 10 (links_of e)) then 2 else 1)))"
    if "c \<in> set (extractConnectedEntities h e)" for c
    using candidate_cases[OF that]
    by (auto simp: link_score_def)
  have three: "\<exists>c \<in> set (extractConnectedEntities h e). c_id c = ''wiki:'' @ t \<and>
         c_score c = (if ''wiki:'' @ t \<in> set (structural_ids e) then 3
                      else if t \<in> set (take 10 (links_of e)) then 2 else 1)"
    if t: "t \<in> set (links_of e)" "\<not> isLinkNoise h t" for t
  proof -
    obtain c where c: "c \<in> set (extractConnectedEntities h e)" "c_id c = ''wiki:'' @ t"
      using link_present[OF t] by blast
    have "c_score c = (if ''wiki:'' @ t \<in> set (structural_ids e) then 3
                      else if t \<in> set (take 10 (links_of e)) then 2 else 1)"
      using two[OF c(1)] c(2) by (auto simp: wiki_inj)
    then show ?thesis using c by blast
  qed
  have four: "e_value ed = 3"
    if "ed \<in> set (edges (buildGraph h e depth cap))" "e_target ed \<in> set (structural_ids e)" for ed
  proof -
    have "ed \<in> set (map (edge_of (entity_id e)) (limitedEntities h e cap))"
      using that(1) by (cases "0 \<ge> depth") (simp_all add: buildGraph_edges loop_result_edges)
    then obtain c where c: "c \<in> set (limitedEntities h e cap)" "ed = edge_of (entity_id e) c"
      by auto
    have "c \<in> set (extractConnectedEntities h e)"
      using c(1) limited_subset by blast
    then show ?thesis using two[of c] that(2) c(2) by (simp add: edge_of_def)
  qed
  show ?thesis using one two three four by blast
qed

lemma jazz_fan_candidates:
  "extractConnectedEntities host0 jazz_fan =
     [\<lparr>c_id = ''wiki:Jazz'', c_label = ''wiki:Jazz'', c_type = ''genre'', c_score = 3,
        c_source = ''wikidata''\<rparr>,
      \<lparr>c_id = ''wiki:Blues'', c_label = ''Blues'', c_type = ''related'', c_score = 2,
        c_source = ''wikipedia''\<rparr>]"
  by code_simp

lemma jazz_fan_structural: "structural_ids jazz_fan = [''wiki:Jazz'']"
  by code_simp

lemma jazz_fan_edges:
  "map (\<lambda>ed. (e_target ed, e_value ed)) (edges (buildGraph host0 jazz_fan 1 20)) =
     [(''wiki:Jazz'', 3), (''wiki:Blues'', 2)]"
  by code_simp

theorem candidate_scoring_witness:
  "''wiki:Jazz'' \<in> set (structural_ids jazz_fan) \<and>
   ''Jazz'' \<in> set (links_of jazz_fan) \<and> \<not> isLinkNoise host0 ''Jazz'' \<and>
   (\<exists>c \<in> set (extractConnectedEntities host0 jazz_fan). c_id c = ''wiki:Jazz'' \<and> c_score c = 3) \<and>
   map c_score (extractConnectedEntities host0 jazz_fan) = [3, 2] \<and>
   map e_value (edges (buildGraph host0 jazz_fan 1 20)) = [3, 2]"
proof -
  have a: "''wiki:Jazz'' \<in> set (structural_ids jazz_fan)"
    by (simp add: jazz_fan_structural)
  have b: "''Jazz'' \<in> set (links_of jazz_fan)"
    by code_simp
  have c: "\<not> isLinkNoise host0 ''Jazz''"
    by code_simp
  have d: "\<exists>c \<in> set (extractConnectedEntities host0 jazz_fan). c_id c = ''wiki:Jazz'' \<and> c_score c = 3"
    using candidate_scoring[of jazz_fan host0 1 20] a by blast
  have e: "map e_value (edges (buildGraph host0 jazz_fan 1 20)) = [3, 2]"
    using jazz_fan_edges[THEN arg_cong, of "map snd"] by (simp add: comp_def)
  show ?thesis using a b c d e by (simp add: jazz_fan_candidates)
qed

subsection \<open>Noise filter\<close>

lemma isLinkNoise_iff:
  "isLinkNoise h t =
     (all_digits t \<or> includes_str t siecle \<or> (\<exists>p \<in> set technical. startsWith t p) \<or>
      (\<exists>m \<in> set months. includes_str (toLowerCase h t) m))"
  by (simp add: isLinkNoise_def list_ex_iff)

text \<open>
  C6. A textual link title is noise when it is purely numeric (as \<open>1959\<close>), contains
  the century token, starts with one of the fixed namespace prefixes or with the "list
  of" pattern, or contains a month name once lowercased (the tokens are the French
  literals of the source). The filter runs before scoring: a noise title gives no
  textual candidate, and no node of the graph has its synthetic id \<open>wiki:title\<close>, unless
  that very id is the center's or the id of a structural relation.
\<close>

theorem noise_filter:
  "(all_digits t \<or> includes_str t siecle \<or> (\<exists>p \<in> set technical. startsWith t p) \<or>
      (\<exists>m \<in> set months. includes_str (toLowerCase h t) m) \<longrightarrow> isLinkNoise h t) \<and>
   (isLinkNoise h t \<longrightarrow>
      (\<forall>c \<in> set (extractConnectedEntities h e).
         c_id c = ''wiki:'' @ t \<longrightarrow> c_id c \<in> set (structural_ids e)) \<and>
      (\<forall>n \<in> set (nodes (buildGraph h e depth cap)).
         n_id n = ''wiki:'' @ t \<longrightarrow> n_isCenter n = Some True \<or> n_id n \<in> set (structural_ids e)))"
proof -
  have cand: "c_id c \<in> set (structural_ids e)"
    if "isLinkNoise h t" "c \<in> set (extractConnectedEntities h e)" "c_id c = ''wiki:'' @ t" for c
    using candidate_cases[OF that(2)] that(1,3) by (auto simp: wiki_inj)
  have node: "n_isCenter n = Some True \<or> n_id n \<in> set (structural_ids e)"
    if noise: "isLinkNoise h t" and n: "n \<in> set (nodes (buildGraph h e depth cap))"
      and nid: "n_id n = ''wiki:'' @ t" for n
  proof -
    obtain f where f: "nodes (buildGraph h e depth cap) = map f (nodes (loop_result h e depth cap))"
      and fp: "\<forall>n. n_id (f n) = n_id n \<and> n_isCenter (f n) = n_isCenter n"
      using buildGraph_nodes[of h e depth cap] by blast
    obtain n0 where n0: "n0 \<in> set (nodes (loop_result h e depth cap))" "n = f n0"
      using n f by auto
    show ?thesis
    proof (cases "n0 = createNode e 0 True")
      case True
      then show ?thesis using n0(2) fp by (simp add: createNode_def)
    next
      case False
      then obtain c where c: "c \<in> set (new_candidates {entity_id e} (limitedEntities h e cap))"
        "n0 = node_of 0 c"
        using n0(1) by (auto simp: loop_result_nodes split: if_splits)
      have "c \<in> set (extractConnectedEntities h e)"
        using c(1) new_candidates_subset limited_subset by blast
      moreover have "c_id c = ''wiki:'' @ t"
        using nid n0(2) c(2) fp by (simp add: node_of_def)
      ultimately have "c_id c \<in> set (structural_ids e)"
        using cand[OF noise] by blast
      then show ?thesis using n0(2) c(2) fp by (simp add: node_of_def)
    qed
  qed
  show ?thesis using cand node isLinkNoise_iff[of h t] by blast
qed

lemma noise_examples:
  "all_digits ''1959''" "includes_str (''19e '' @ siecle) siecle"
  "startsWith ''Liste de romans'' ''Liste de''" "includes_str (toLowerCase host0 ''Mars 2001'') ''mars''"
  by code_simp+

theorem noise_filter_witness:
  "all_digits ''1959'' \<and> isLinkNoise host0 ''1959'' \<and>
   isLinkNoise host0 ''1952'' \<and> ''1952'' \<in> set (links_of adams) \<and>
   ''wiki:1952'' \<notin> set (map n_id (nodes (buildGraph host0 adams 1 20)))"
proof -
  have a: "all_digits ''1959''" by (rule noise_examples(1))
  have b: "isLinkNoise host0 ''1959''"
    using noise_filter[of "''1959''" host0 adams 1 20] a by blast
  have c: "isLinkNoise host0 ''1952''" by code_simp
  have d: "''1952'' \<in> set (links_of adams)" by code_simp
  have e: "''wiki:1952'' \<notin> set (map n_id (nodes (buildGraph host0 adams 1 20)))"
    by (simp add: adams_node_ids)
  show ?thesis using a b c d e by simp
qed

subsection \<open>Label resolution\<close>

lemma fetchWikidataLabels_rejected:
  "wbgetentities h ids ''fr'' = Inl r \<Longrightarrow> fetchWikidataLabels h ids = []"
  by (simp add: fetchWikidataLabels_def)

lemma apply_no_labels: "map (apply_label []) ns = ns"
  by (induction ns) (simp_all add: apply_label_def)

text \<open>A rejected label request leaves every label as the loop set it.\<close>

lemma label_pass_best_effort:
  assumes "wbgetentities h (qidsToTranslate (nodes (loop_result h e depth cap))) ''fr'' = Inl r"
  shows "nodes (buildGraph h e depth cap) = nodes (loop_result h e depth cap)"
  using assms unfolding buildGraph_def Let_def loop_result_def[symmetric]
  by (simp add: fetchWikidataLabels_rejected apply_no_labels)

text \<open>
  C9. The label pass asks for the labels in the fixed language \<open>fr\<close>, not in the
  current language: with the current language set to English and a label service that
  holds "human" (en) and "humain" (fr) for the item \<open>Q5\<close>, the node of \<open>Q5\<close> is
  labelled "humain".
\<close>

theorem labels_resolved_in_french:
  "getLanguage (setLanguage ''en'' \<lparr>CURRENT_LANG = ''fr''\<rparr>) = ''en'' \<and>
   label_service [''Q5''] ''en'' = Inr \<lparr>wb_entities = Some [(''Q5'', [(''en'', ''human'')])]\<rparr> \<and>
   map n_label (nodes (buildGraph host0 adams 1 3)) =
     [''Douglas Adams'', ''humain'', ''Q36180'', ''Cambridge'']"
  by code_simp

section \<open>Properties of the entity resolver\<close>

subsection \<open>Type inference\<close>

lemma typeMap_range: "map_of typeMap i = Some t \<Longrightarrow> t \<in> set returned_types"
  using map_of_SomeD[of typeMap i t] unfolding typeMap_def returned_types_def by auto

lemma entity_returned: "''entity'' \<in> set returned_types"
  by (simp add: returned_types_def)

text \<open>The inferred type is a value of the table or the default.\<close>

lemma inferEntityType_range: "inferEntityType ent \<in> set returned_types"
  unfolding inferEntityType_def
  by (auto split: option.splits list.splits wdvalue.splits intro: typeMap_range entity_returned)

text \<open>Only the first "instance of" claim is read.\<close>

lemma inferEntityType_first_only:
  "wd_claims ent = Some cl \<Longrightarrow> map_of cl ''P31'' = Some (c # cs) \<Longrightarrow>
   wd_claims ent' = Some cl' \<Longrightarrow> map_of cl' ''P31'' = Some (c # cs') \<Longrightarrow>
   inferEntityType ent = inferEntityType ent'"
  by (simp add: inferEntityType_def)

text \<open>
  C8. For a record whose first "instance of" value is \<open>Q11424\<close> the inferred type is
  \<open>film\<close>, which is none of \<open>person\<close>, \<open>place\<close>, \<open>work\<close>, \<open>concept\<close>,
  \<open>entity\<close>.
\<close>

theorem inferEntityType_film:
  "inferEntityType film_record = ''film'' \<and> inferEntityType film_record \<notin> set documented_types"
  by (simp add: inferEntityType_def film_record_def typeMap_def documented_types_def)

subsection \<open>Enrichments\<close>

lemma same_inputs_refl: "same_inputs e e"
  by (simp add: same_inputs_def)

lemma same_inputs_trans: "same_inputs a b \<Longrightarrow> same_inputs b c \<Longrightarrow> same_inputs a c"
  by (simp add: same_inputs_def)

lemma writes_only_I:
  assumes "\<And>e. same_inputs e (fst (f e))"
    and "\<And>e k'. k' \<noteq> k \<Longrightarrow> source_at k' (sources (fst (f e))) = source_at k' (sources e)"
    and "\<And>e e'. same_inputs e e' \<Longrightarrow> source_at k (sources e') = source_at k (sources e) \<Longrightarrow>
           source_at k (sources (fst (f e'))) = source_at k (sources (fst (f e))) \<and>
           snd (f e') = snd (f e)"
  shows "writes_only k f"
  unfolding writes_only_def using assms by blast

lemma wikipedia_writes: "writes_only KWikipedia (enrichFromWikipedia h lang t)"
proof (rule writes_only_I)
  fix e
  show "same_inputs e (fst (enrichFromWikipedia h lang t e))"
    by (simp add: enrichFromWikipedia_def same_inputs_def Let_def split: sum.splits option.splits)
next
  fix e k'
  assume "k' \<noteq> KWikipedia"
  then show "source_at k' (sources (fst (enrichFromWikipedia h lang t e))) = source_at k' (sources e)"
    by (cases k') (simp_all add: enrichFromWikipedia_def Let_def split: sum.splits option.splits)
next
  fix e e'
  assume "same_inputs e e'" "source_at KWikipedia (sources e') = source_at KWikipedia (sources e)"
  then show "source_at KWikipedia (sources (fst (enrichFromWikipedia h lang t e'))) =
      source_at KWikipedia (sources (fst (enrichFromWikipedia h lang t e))) \<and>
      snd (enrichFromWikipedia h lang t e') = snd (enrichFromWikipedia h lang t e)"
    by (simp add: enrichFromWikipedia_def same_inputs_def Let_def split: sum.splits option.splits)
qed

lemma external_links_writes:
  "writes_only KExternalLinks (enrichFromWikipediaExternalLinks h lang t)"
proof (rule writes_only_I)
  fix e
  show "same_inputs e (fst (enrichFromWikipediaExternalLinks h lang t e))"
    by (simp add: enrichFromWikipediaExternalLinks_def same_inputs_def
        split: sum.splits option.splits)
next
  fix e k'
  assume "k' \<noteq> KExternalLinks"
  then show "source_at k' (sources (fst (enrichFromWikipediaExternalLinks h lang t e))) =
      source_at k' (sources e)"
    by (cases k') (simp_all add: enrichFromWikipediaExternalLinks_def
        split: sum.splits option.splits)
next
  fix e e'
  assume "same_inputs e e'"
    "source_at KExternalLinks (sources e') = source_at KExternalLinks (sources e)"
  then show "source_at KExternalLinks (sources (fst (enrichFromWikipediaExternalLinks h lang t e'))) =
      source_at KExternalLinks (sources (fst (enrichFromWikipediaExternalLinks h lang t e))) \<and>
      snd (enrichFromWikipediaExternalLinks h lang t e') =
      snd (enrichFromWikipediaExternalLinks h lang t e)"
    by (simp add: enrichFromWikipediaExternalLinks_def same_inputs_def
        split: sum.splits option.splits)
qed

lemma musicbrainz_writes: "writes_only KMusicBrainz (enrichFromMusicBrainz h)"
proof (rule writes_only_I)
  fix e
  show "same_inputs e (fst (enrichFromMusicBrainz h e))"
    by (simp add: enrichFromMusicBrainz_def same_inputs_def split: sum.splits option.splits)
next
  fix e k'
  assume "k' \<noteq> KMusicBrainz"
  then show "source_at k' (sources (fst (enrichFromMusicBrainz h e))) = source_at k' (sources e)"
    by (cases k') (simp_all add: enrichFromMusicBrainz_def split: sum.splits option.splits)
next
  fix e e'
  assume "same_inputs e e'"
    "source_at KMusicBrainz (sources e') = source_at KMusicBrainz (sources e)"
  then show "source_at KMusicBrainz (sources (fst (enrichFromMusicBrainz h e'))) =
      source_at KMusicBrainz (sources (fst (enrichFromMusicBrainz h e))) \<and>
      snd (enrichFromMusicBrainz h e') = snd (enrichFromMusicBrainz h e)"
    by (simp add: enrichFromMusicBrainz_def same_inputs_def split: sum.splits option.splits)
qed

lemma tmdb_writes: "writes_only KTMDB (enrichFromTMDB h lang)"
proof (rule writes_only_I)
  fix e
  show "same_inputs e (fst (enrichFromTMDB h lang e))"
    by (simp add: enrichFromTMDB_def same_inputs_def TMDB_API_KEY_def split: option.splits)
next
  fix e k'
  assume "k' \<noteq> KTMDB"
  then show "source_at k' (sources (fst (enrichFromTMDB h lang e))) = source_at k' (sources e)"
    by (simp add: enrichFromTMDB_def TMDB_API_KEY_def split: option.splits)
next
  fix e e'
  assume "same_inputs e e'" "source_at KTMDB (sources e') = source_at KTMDB (sources e)"
  then show "source_at KTMDB (sources (fst (enrichFromTMDB h lang e'))) =
      source_at KTMDB (sources (fst (enrichFromTMDB h lang e))) \<and>
      snd (enrichFromTMDB h lang e') = snd (enrichFromTMDB h lang e)"
    by (simp add: enrichFromTMDB_def same_inputs_def TMDB_API_KEY_def split: option.splits)
qed

lemma openlibrary_fetch_facts:
  "same_inputs e (fst (openlibrary_fetch h u e))"
  "k' \<noteq> KOpenLibrary \<Longrightarrow>
     source_at k' (sources (fst (openlibrary_fetch h u e))) = source_at k' (sources e)"
  "source_at KOpenLibrary (sources e') = source_at KOpenLibrary (sources e) \<Longrightarrow>
     source_at KOpenLibrary (sources (fst (openlibrary_fetch h u e'))) =
     source_at KOpenLibrary (sources (fst (openlibrary_fetch h u e))) \<and>
     snd (openlibrary_fetch h u e') = snd (openlibrary_fetch h u e)"
  by (cases k'; simp add: openlibrary_fetch_def same_inputs_def split: sum.splits)+

lemma openlibrary_writes: "writes_only KOpenLibrary (enrichFromOpenLibrary h)"
proof (rule writes_only_I)
  fix e
  show "same_inputs e (fst (enrichFromOpenLibrary h e))"
    by (simp add: enrichFromOpenLibrary_def openlibrary_fetch_facts same_inputs_refl
        split: option.splits ident_value.splits wdvalue.splits)
next
  fix e k'
  assume "k' \<noteq> KOpenLibrary"
  then show "source_at k' (sources (fst (enrichFromOpenLibrary h e))) = source_at k' (sources e)"
    by (simp add: enrichFromOpenLibrary_def openlibrary_fetch_facts
        split: option.splits ident_value.splits wdvalue.splits)
next
  fix e e'
  assume a: "same_inputs e e'"
    "source_at KOpenLibrary (sources e') = source_at KOpenLibrary (sources e)"
  have i: "identifiers e' = identifiers e" using a(1) by (simp add: same_inputs_def)
  show "source_at KOpenLibrary (sources (fst (enrichFromOpenLibrary h e'))) =
      source_at KOpenLibrary (sources (fst (enrichFromOpenLibrary h e))) \<and>
      snd (enrichFromOpenLibrary h e') = snd (enrichFromOpenLibrary h e)"
    using a(2) openlibrary_fetch_facts(3)[OF a(2)]
    by (simp add: enrichFromOpenLibrary_def i
        split: option.splits ident_value.splits wdvalue.splits)
qed

lemma commons_writes: "writes_only KCommons (enrichFromWikimediaCommons h)"
proof (rule writes_only_I)
  fix e
  show "same_inputs e (fst (enrichFromWikimediaCommons h e))"
    by (simp add: enrichFromWikimediaCommons_def same_inputs_def split: sum.splits option.splits)
next
  fix e k'
  assume "k' \<noteq> KCommons"
  then show "source_at k' (sources (fst (enrichFromWikimediaCommons h e))) = source_at k' (sources e)"
    by (cases k') (simp_all add: enrichFromWikimediaCommons_def split: sum.splits option.splits)
next
  fix e e'
  assume "same_inputs e e'" "source_at KCommons (sources e') = source_at KCommons (sources e)"
  then show "source_at KCommons (sources (fst (enrichFromWikimediaCommons h e'))) =
      source_at KCommons (sources (fst (enrichFromWikimediaCommons h e))) \<and>
      snd (enrichFromWikimediaCommons h e') = snd (enrichFromWikimediaCommons h e)"
    by (simp add: enrichFromWikimediaCommons_def same_inputs_def split: sum.splits option.splits)
qed

lemma openstreetmap_writes: "writes_only KOpenStreetMap (enrichFromOpenStreetMap h)"
proof (rule writes_only_I)
  fix e
  show "same_inputs e (fst (enrichFromOpenStreetMap h e))"
    by (simp add: enrichFromOpenStreetMap_def same_inputs_def Let_def
        split: sum.splits option.splits)
next
  fix e k'
  assume "k' \<noteq> KOpenStreetMap"
  then show "source_at k' (sources (fst (enrichFromOpenStreetMap h e))) = source_at k' (sources e)"
    by (cases k') (simp_all add: enrichFromOpenStreetMap_def Let_def
        split: sum.splits option.splits)
next
  fix e e'
  assume "same_inputs e e'"
    "source_at KOpenStreetMap (sources e') = source_at KOpenStreetMap (sources e)"
  then show "source_at KOpenStreetMap (sources (fst (enrichFromOpenStreetMap h e'))) =
      source_at KOpenStreetMap (sources (fst (enrichFromOpenStreetMap h e))) \<and>
      snd (enrichFromOpenStreetMap h e') = snd (enrichFromOpenStreetMap h e)"
    by (simp add: enrichFromOpenStreetMap_def same_inputs_def Let_def
        split: sum.splits option.splits)
qed

lemma arxiv_writes: "writes_only KArxiv (enrichFromArxiv h)"
proof (rule writes_only_I)
  fix e
  show "same_inputs e (fst (enrichFromArxiv h e))"
    by (simp add: enrichFromArxiv_def same_inputs_def split: sum.splits option.splits)
next
  fix e k'
  assume "k' \<noteq> KArxiv"
  then show "source_at k' (sources (fst (enrichFromArxiv h e))) = source_at k' (sources e)"
    by (cases k') (simp_all add: enrichFromArxiv_def split: sum.splits option.splits)
next
  fix e e'
  assume "same_inputs e e'" "source_at KArxiv (sources e') = source_at KArxiv (sources e)"
  then show "source_at KArxiv (sources (fst (enrichFromArxiv h e'))) =
      source_at KArxiv (sources (fst (enrichFromArxiv h e))) \<and>
      snd (enrichFromArxiv h e') = snd (enrichFromArxiv h e)"
    by (simp add: enrichFromArxiv_def same_inputs_def split: sum.splits option.splits)
qed

lemma archive_fetch_facts:
  "same_inputs e (fst (archive_fetch h q m e))"
  "k' \<noteq> KArchiveOrg \<Longrightarrow>
     source_at k' (sources (fst (archive_fetch h q m e))) = source_at k' (sources e)"
  "source_at KArchiveOrg (sources e') = source_at KArchiveOrg (sources e) \<Longrightarrow>
     source_at KArchiveOrg (sources (fst (archive_fetch h q m e'))) =
     source_at KArchiveOrg (sources (fst (archive_fetch h q m e))) \<and>
     snd (archive_fetch h q m e') = snd (archive_fetch h q m e)"
  by (cases k'; simp add: archive_fetch_def same_inputs_def
      split: sum.splits option.splits list.splits)+

lemma archive_writes: "writes_only KArchiveOrg (enrichFromArchiveOrg h)"
proof (rule writes_only_I)
  fix e
  show "same_inputs e (fst (enrichFromArchiveOrg h e))"
    by (simp add: enrichFromArchiveOrg_def archive_fetch_facts same_inputs_refl)
next
  fix e k'
  assume "k' \<noteq> KArchiveOrg"
  then show "source_at k' (sources (fst (enrichFromArchiveOrg h e))) = source_at k' (sources e)"
    by (simp add: enrichFromArchiveOrg_def archive_fetch_facts)
next
  fix e e'
  assume a: "same_inputs e e'"
    "source_at KArchiveOrg (sources e') = source_at KArchiveOrg (sources e)"
  have i: "entity_type e' = entity_type e" "name e' = name e"
    using a(1) by (simp_all add: same_inputs_def)
  show "source_at KArchiveOrg (sources (fst (enrichFromArchiveOrg h e'))) =
      source_at KArchiveOrg (sources (fst (enrichFromArchiveOrg h e))) \<and>
      snd (enrichFromArchiveOrg h e') = snd (enrichFromArchiveOrg h e)"
    using a(2) archive_fetch_facts(3)[OF a(2)]
    by (simp add: enrichFromArchiveOrg_def i)
qed

lemma keyed_enrichments_snd: "map snd (keyed_enrichments h lang t) = enrichments h lang t"
  by (simp add: keyed_enrichments_def enrichments_def)

lemma keyed_enrichments_keys: "distinct (map fst (keyed_enrichments h lang t))"
  by (simp add: keyed_enrichments_def)

lemma keyed_enrichments_write:
  "\<forall>kf \<in> set (keyed_enrichments h lang t). writes_only (fst kf) (snd kf)"
  by (simp add: keyed_enrichments_def wikipedia_writes external_links_writes musicbrainz_writes
      tmdb_writes openlibrary_writes commons_writes openstreetmap_writes arxiv_writes
      archive_writes)

lemma settle_all:
  assumes "\<forall>kf \<in> set kfs. writes_only (fst kf) (snd kf)" and "distinct (map fst kfs)"
  shows "same_inputs e (fst (foldl then_enrich (e, log) (map snd kfs))) \<and>
         (\<forall>k. source_at k (sources (fst (foldl then_enrich (e, log) (map snd kfs)))) =
              (case map_of kfs k of
                 Some f \<Rightarrow> source_at k (sources (fst (f e)))
               | None \<Rightarrow> source_at k (sources e))) \<and>
         snd (foldl then_enrich (e, log) (map snd kfs)) = log + sum_list (map (\<lambda>kf. snd (snd kf e)) kfs)"
  using assms
proof (induction kfs rule: rev_induct)
  case Nil
  show ?case by (simp add: same_inputs_refl)
next
  case (snoc kf kfs)
  obtain k f where kf: "kf = (k, f)" by (cases kf)
  let ?r = "foldl then_enrich (e, log) (map snd kfs)"
  let ?e = "fst ?r"
  have w: "writes_only k f" using snoc.prems(1) kf by simp
  have knew: "map_of kfs k = None"
    using snoc.prems(2) kf by (simp add: map_of_eq_None_iff)
  have ih: "same_inputs e ?e"
    "\<forall>k. source_at k (sources ?e) =
       (case map_of kfs k of Some f \<Rightarrow> source_at k (sources (fst (f e)))
        | None \<Rightarrow> source_at k (sources e))"
    "snd ?r = log + sum_list (map (\<lambda>kf. snd (snd kf e)) kfs)"
    using snoc.IH snoc.prems by auto
  have same_k: "source_at k (sources ?e) = source_at k (sources e)"
    using ih(2) knew by simp
  have dep: "source_at k (sources (fst (f ?e))) = source_at k (sources (fst (f e)))"
    "snd (f ?e) = snd (f e)"
    using w ih(1) same_k unfolding writes_only_def by blast+
  have frame: "same_inputs ?e (fst (f ?e))"
    "\<forall>k'. k' \<noteq> k \<longrightarrow> source_at k' (sources (fst (f ?e))) = source_at k' (sources ?e)"
    using w unfolding writes_only_def by blast+
  have step: "foldl then_enrich (e, log) (map snd (kfs @ [kf])) = (fst (f ?e), snd ?r + snd (f ?e))"
    by (simp add: kf then_enrich_def)
  have a: "same_inputs e (fst (f ?e))"
    using ih(1) frame(1) by (rule same_inputs_trans)
  have b: "source_at k' (sources (fst (f ?e))) =
      (case map_of (kfs @ [kf]) k' of Some g \<Rightarrow> source_at k' (sources (fst (g e)))
       | None \<Rightarrow> source_at k' (sources e))" for k'
  proof (cases "k' = k")
    case True
    then show ?thesis using dep(1) knew by (simp add: kf map_add_def)
  next
    case False
    then show ?thesis
      using frame(2) ih(2) by (simp add: kf map_add_def split: option.splits)
  qed
  have c: "snd ?r + snd (f ?e) = log + sum_list (map (\<lambda>kf. snd (snd kf e)) (kfs @ [kf]))"
    using ih(3) dep(2) by (simp add: kf)
  show ?case unfolding step using a b c by simp
qed


lemma mset_filter_map:
  "mset (map w (filter P xs)) = sum_list (map (\<lambda>k. if P k then {#w k#} else {#}) xs)"
  by (induction xs) simp_all

lemma those_None_iff: "(those xs = None) = (None \<in> set xs)"
  by (induction xs) (auto split: option.splits)

lemma fails_same_inputs:
  "same_inputs e e' \<Longrightarrow> enrichment_fails h lang t e' k = enrichment_fails h lang t e k"
  by (cases k) (simp_all add: same_inputs_def)

lemma wikipedia_outcome:
  "snd (enrichFromWikipedia h lang t e) =
     (if enrichment_fails h lang t e KWikipedia then {#warning KWikipedia#} else {#})"
  by (simp add: enrichFromWikipedia_def Let_def split: sum.split option.split)

lemma external_links_outcome:
  "snd (enrichFromWikipediaExternalLinks h lang t e) =
     (if enrichment_fails h lang t e KExternalLinks then {#warning KExternalLinks#} else {#})"
  "enrichment_fails h lang t e KExternalLinks \<longrightarrow>
     fst (enrichFromWikipediaExternalLinks h lang t e) = e"
  by (simp_all add: enrichFromWikipediaExternalLinks_def split: sum.split option.split)

lemma musicbrainz_outcome:
  "snd (enrichFromMusicBrainz h e) =
     (if enrichment_fails h lang t e KMusicBrainz then {#warning KMusicBrainz#} else {#})"
  "enrichment_fails h lang t e KMusicBrainz \<longrightarrow> fst (enrichFromMusicBrainz h e) = e"
  by (simp_all add: enrichFromMusicBrainz_def split: sum.split option.split)

lemma tmdb_outcome:
  "snd (enrichFromTMDB h lang e) =
     (if enrichment_fails h lang t e KTMDB then {#warning KTMDB#} else {#})"
  "enrichment_fails h lang t e KTMDB \<longrightarrow> fst (enrichFromTMDB h lang e) = e"
  by (simp_all add: enrichFromTMDB_def TMDB_API_KEY_def split: option.split)

lemma openlibrary_fetch_outcome:
  "snd (openlibrary_fetch h u e) = (if isl (openlibrary_get h u) then {#warning KOpenLibrary#} else {#})"
  "isl (openlibrary_get h u) \<longrightarrow> fst (openlibrary_fetch h u e) = e"
  by (simp_all add: openlibrary_fetch_def split: sum.split)

lemma openlibrary_outcome:
  "snd (enrichFromOpenLibrary h e) =
     (if enrichment_fails h lang t e KOpenLibrary then {#warning KOpenLibrary#} else {#})"
  "enrichment_fails h lang t e KOpenLibrary \<Longrightarrow> fst (enrichFromOpenLibrary h e) = e"
proof -
  show "snd (enrichFromOpenLibrary h e) =
     (if enrichment_fails h lang t e KOpenLibrary then {#warning KOpenLibrary#} else {#})"
  proof (cases "map_of (identifiers e) ''openlibrary''")
    case None
    then show ?thesis by (simp add: enrichFromOpenLibrary_def)
  next
    case (Some v)
    show ?thesis
    proof (cases v)
      case (IdValue w)
      then show ?thesis
        using Some by (cases w) (simp_all add: enrichFromOpenLibrary_def openlibrary_fetch_outcome)
    next
      case (IdCoordinates x y)
      then show ?thesis using Some by (simp add: enrichFromOpenLibrary_def)
    qed
  qed
  show "fst (enrichFromOpenLibrary h e) = e" if "enrichment_fails h lang t e KOpenLibrary"
  proof (cases "map_of (identifiers e) ''openlibrary''")
    case None
    then show ?thesis by (simp add: enrichFromOpenLibrary_def)
  next
    case (Some v)
    show ?thesis
    proof (cases v)
      case (IdValue w)
      then show ?thesis
        using Some that
        by (cases w) (simp_all add: enrichFromOpenLibrary_def openlibrary_fetch_outcome
            split: if_splits)
    next
      case (IdCoordinates x y)
      then show ?thesis using Some by (simp add: enrichFromOpenLibrary_def)
    qed
  qed
qed

lemma image_of_None: "cp_imageinfo pg \<noteq> None \<Longrightarrow> (image_of pg = None) = (cp_imageinfo pg = Some [])"
  by (auto simp: image_of_def split: option.splits list.splits)

lemma images_fail:
  "(those (map image_of (filter (\<lambda>pg. cp_imageinfo pg \<noteq> None) pages)) = None) =
   list_ex (\<lambda>pg. cp_imageinfo pg = Some []) pages"
proof -
  have "(None \<in> image_of ` {pg \<in> set pages. cp_imageinfo pg \<noteq> None}) =
      (\<exists>pg \<in> set pages. cp_imageinfo pg = Some [])"
  proof
    assume "None \<in> image_of ` {pg \<in> set pages. cp_imageinfo pg \<noteq> None}"
    then obtain pg where "pg \<in> set pages" "cp_imageinfo pg \<noteq> None" "image_of pg = None"
      by auto
    then show "\<exists>pg \<in> set pages. cp_imageinfo pg = Some []"
      using image_of_None[of pg] by auto
  next
    assume "\<exists>pg \<in> set pages. cp_imageinfo pg = Some []"
    then obtain pg where pg: "pg \<in> set pages" "cp_imageinfo pg = Some []"
      by auto
    then have "image_of pg = None"
      using image_of_None[of pg] by simp
    then show "None \<in> image_of ` {pg \<in> set pages. cp_imageinfo pg \<noteq> None}"
      using pg by force
  qed
  then show ?thesis by (simp add: those_None_iff list_ex_iff)
qed

lemma commons_outcome:
  "snd (enrichFromWikimediaCommons h e) =
     (if enrichment_fails h lang t e KCommons then {#warning KCommons#} else {#})"
  "enrichment_fails h lang t e KCommons \<Longrightarrow> fst (enrichFromWikimediaCommons h e) = e"
proof -
  show "snd (enrichFromWikimediaCommons h e) =
     (if enrichment_fails h lang t e KCommons then {#warning KCommons#} else {#})"
  proof (cases "commons_search h (name e)")
    case (Inl rj)
    then show ?thesis by (simp add: enrichFromWikimediaCommons_def)
  next
    case (Inr r)
    show ?thesis
    proof (cases r)
      case None
      then show ?thesis using Inr by (simp add: enrichFromWikimediaCommons_def)
    next
      case (Some pages)
      show ?thesis
      proof (cases "those (map image_of (filter (\<lambda>pg. cp_imageinfo pg \<noteq> None) pages))")
        case None
        then show ?thesis
          using Inr Some images_fail[of pages] by (simp add: enrichFromWikimediaCommons_def)
      next
        case (Some images)
        then show ?thesis
          using Inr \<open>r = Some pages\<close> images_fail[of pages]
          by (simp add: enrichFromWikimediaCommons_def)
      qed
    qed
  qed
  show "fst (enrichFromWikimediaCommons h e) = e" if "enrichment_fails h lang t e KCommons"
  proof (cases "commons_search h (name e)")
    case (Inl rj)
    then show ?thesis by (simp add: enrichFromWikimediaCommons_def)
  next
    case (Inr r)
    show ?thesis
    proof (cases r)
      case None
      then show ?thesis using Inr by (simp add: enrichFromWikimediaCommons_def)
    next
      case (Some pages)
      then have "those (map image_of (filter (\<lambda>pg. cp_imageinfo pg \<noteq> None) pages)) = None"
        using that Inr images_fail[of pages] by simp
      then show ?thesis using Inr Some by (simp add: enrichFromWikimediaCommons_def)
    qed
  qed
qed

lemma openstreetmap_outcome:
  "snd (enrichFromOpenStreetMap h e) =
     (if enrichment_fails h lang t e KOpenStreetMap then {#warning KOpenStreetMap#} else {#})"
  "enrichment_fails h lang t e KOpenStreetMap \<longrightarrow> fst (enrichFromOpenStreetMap h e) = e"
  by (simp_all add: enrichFromOpenStreetMap_def Let_def split: sum.split option.split)

lemma arxiv_outcome:
  "snd (enrichFromArxiv h e) =
     (if enrichment_fails h lang t e KArxiv then {#warning KArxiv#} else {#})"
  "enrichment_fails h lang t e KArxiv \<longrightarrow> fst (enrichFromArxiv h e) = e"
  by (simp_all add: enrichFromArxiv_def split: sum.split option.split)

lemma archive_fetch_outcome:
  "snd (archive_fetch h q m e) =
     (if isl (archive_search h (q @ '' AND '' @ m)) then {#warning KArchiveOrg#} else {#})"
  "isl (archive_search h (q @ '' AND '' @ m)) \<longrightarrow> fst (archive_fetch h q m e) = e"
  by (simp_all add: archive_fetch_def split: sum.split option.split list.split)

lemma archive_outcome:
  "snd (enrichFromArchiveOrg h e) =
     (if enrichment_fails h lang t e KArchiveOrg then {#warning KArchiveOrg#} else {#})"
  "enrichment_fails h lang t e KArchiveOrg \<longrightarrow> fst (enrichFromArchiveOrg h e) = e"
  using archive_fetch_outcome[of h "''creator:'' @ dquote @ name e @ dquote"
      "''(mediatype:audio OR mediatype:movies)''" e]
    archive_fetch_outcome[of h "''title:'' @ dquote @ name e @ dquote" "[]" e]
  by (simp_all add: enrichFromArchiveOrg_def)

lemma warnings_of_all:
  "sum_list (map (\<lambda>kf. snd (snd kf e)) (keyed_enrichments h lang t)) =
     mset (map warning (filter (enrichment_fails h lang t e) all_keys))"
  unfolding mset_filter_map
  by (simp only: keyed_enrichments_def all_keys_def list.map sum_list.Cons sum_list.Nil snd_conv
      wikipedia_outcome external_links_outcome(1) musicbrainz_outcome(1)[of h e lang t]
      tmdb_outcome(1)[of h lang e t] openlibrary_outcome(1)[of h e lang t]
      commons_outcome(1)[of h e lang t] openstreetmap_outcome(1)[of h e lang t]
      arxiv_outcome(1)[of h e lang t] archive_outcome(1)[of h e lang t])

lemma keyed_failed_unchanged:
  assumes "kf \<in> set (keyed_enrichments h lang t)" "fst kf \<noteq> KWikipedia"
    "enrichment_fails h lang t e (fst kf)"
  shows "fst (snd kf e) = e"
proof -
  consider "kf = (KExternalLinks, enrichFromWikipediaExternalLinks h lang t)"
    | "kf = (KMusicBrainz, enrichFromMusicBrainz h)" | "kf = (KTMDB, enrichFromTMDB h lang)"
    | "kf = (KOpenLibrary, enrichFromOpenLibrary h)"
    | "kf = (KCommons, enrichFromWikimediaCommons h)"
    | "kf = (KOpenStreetMap, enrichFromOpenStreetMap h)" | "kf = (KArxiv, enrichFromArxiv h)"
    | "kf = (KArchiveOrg, enrichFromArchiveOrg h)"
    using assms(1,2) unfolding keyed_enrichments_def by auto
  then show ?thesis
  proof cases
    case 1
    then show ?thesis using assms(3) external_links_outcome(2)[of h lang t e] by simp
  next
    case 2
    then show ?thesis using assms(3) musicbrainz_outcome(2)[of h lang t e] by simp
  next
    case 3
    then show ?thesis using assms(3) tmdb_outcome(2)[of h lang t e] by simp
  next
    case 4
    then show ?thesis using assms(3) openlibrary_outcome(2)[of h lang t e] by simp
  next
    case 5
    then show ?thesis using assms(3) commons_outcome(2)[of h lang t e] by simp
  next
    case 6
    then show ?thesis using assms(3) openstreetmap_outcome(2)[of h lang t e] by simp
  next
    case 7
    then show ?thesis using assms(3) arxiv_outcome(2)[of h lang t e] by simp
  next
    case 8
    then show ?thesis using assms(3) archive_outcome(2)[of h lang t e] by simp
  qed
qed

lemma keyed_key: "k \<in> set all_keys \<and> (\<exists>f. (k, f) \<in> set (keyed_enrichments h lang t))"
  by (cases k) (simp_all add: all_keys_def keyed_enrichments_def)

lemma wikipedia_summary_failed:
  "page_summary h lang t = Inl rj \<Longrightarrow> fst (enrichFromWikipedia h lang t e) = e"
  by (simp add: enrichFromWikipedia_def)

lemma wikipedia_links_failed:
  "page_summary h lang t = Inr s \<Longrightarrow> parse_links h lang t = Inl rj \<Longrightarrow>
   wikipedia (sources (fst (enrichFromWikipedia h lang t e))) = Some (summary_only s)"
  by (simp add: enrichFromWikipedia_def summary_only_def Let_def)

lemma base_sources_absent: "source_at k (sources (base_entity lang t i r)) = None"
  by (cases k) (simp_all add: base_entity_def no_sources_def)

text \<open>
  What \<open>resolveEntityFromCandidate\<close> returns once the record is fetched: the fields of
  the base entity, under each key what the key's own enrichment stores when run alone on
  the base entity, and the warnings of the enrichments that fail.
\<close>

lemma candidate_resolution:
  assumes "fetchWikidataEntity h i = Inr (Some r)"
  shows "\<exists>e log. resolveEntityFromCandidate h lang t i = Inr (e, log) \<and>
           same_inputs (base_entity lang t i r) e \<and>
           (\<forall>kf \<in> set (keyed_enrichments h lang t).
              source_at (fst kf) (sources e) =
                source_at (fst kf) (sources (fst (snd kf (base_entity lang t i r))))) \<and>
           log = mset (map warning (filter (enrichment_fails h lang t e) all_keys)) \<and>
           (\<forall>k. k \<noteq> KWikipedia \<and> enrichment_fails h lang t e k \<longrightarrow>
                source_at k (sources e) = None) \<and>
           (\<forall>rj. page_summary h lang t = Inl rj \<longrightarrow> wikipedia (sources e) = None) \<and>
           (\<forall>s rj. page_summary h lang t = Inr s \<and> parse_links h lang t = Inl rj \<longrightarrow>
              wikipedia (sources e) = Some (summary_only s))"
proof -
  let ?b = "base_entity lang t i r"
  let ?kfs = "keyed_enrichments h lang t"
  let ?res = "foldl then_enrich (?b, {#}) (enrichments h lang t)"
  have res: "resolveEntityFromCandidate h lang t i = Inr (fst ?res, snd ?res)"
    using assms by (simp add: resolveEntityFromCandidate_def)
  have s: "same_inputs ?b (fst ?res)"
    "\<forall>k. source_at k (sources (fst ?res)) =
       (case map_of ?kfs k of Some f \<Rightarrow> source_at k (sources (fst (f ?b)))
        | None \<Rightarrow> source_at k (sources ?b))"
    "snd ?res = sum_list (map (\<lambda>kf. snd (snd kf ?b)) ?kfs)"
    using settle_all[OF keyed_enrichments_write keyed_enrichments_keys,
        where e = ?b and log = "{#}"]
    by (simp_all add: keyed_enrichments_snd)
  have fe: "enrichment_fails h lang t (fst ?res) k = enrichment_fails h lang t ?b k" for k
    using s(1) by (rule fails_same_inputs)
  have key: "source_at (fst kf) (sources (fst ?res)) = source_at (fst kf) (sources (fst (snd kf ?b)))"
    if "kf \<in> set ?kfs" for kf
  proof -
    have "map_of ?kfs (fst kf) = Some (snd kf)"
      using that keyed_enrichments_keys[of h lang t] by (simp add: map_of_eq_Some_iff)
    then show ?thesis using s(2) by simp
  qed
  have log: "snd ?res = mset (map warning (filter (enrichment_fails h lang t (fst ?res)) all_keys))"
  proof -
    have "enrichment_fails h lang t (fst ?res) = enrichment_fails h lang t ?b"
      by (rule ext) (rule fe)
    then show ?thesis using s(3) warnings_of_all[of ?b h lang t] by simp
  qed
  have fail: "source_at k (sources (fst ?res)) = None"
    if k: "k \<noteq> KWikipedia \<and> enrichment_fails h lang t (fst ?res) k" for k
  proof -
    obtain f where f: "(k, f) \<in> set ?kfs"
      using keyed_key[of k h lang t] by blast
    have "fst (f ?b) = ?b"
      using keyed_failed_unchanged[OF f, of ?b] k fe[of k] by simp
    then show ?thesis
      using key[OF f] by (simp add: base_sources_absent)
  qed
  have wp: "wikipedia (sources (fst ?res)) = None" if "page_summary h lang t = Inl rj" for rj
  proof -
    have "(KWikipedia, enrichFromWikipedia h lang t) \<in> set ?kfs"
      by (simp add: keyed_enrichments_def)
    from key[OF this] have "source_at KWikipedia (sources (fst ?res)) = None"
      using wikipedia_summary_failed[OF that] by (simp add: base_sources_absent)
    then show ?thesis by simp
  qed
  have wl: "wikipedia (sources (fst ?res)) = Some (summary_only s)"
    if "page_summary h lang t = Inr s \<and> parse_links h lang t = Inl rj" for s rj
  proof -
    have "(KWikipedia, enrichFromWikipedia h lang t) \<in> set ?kfs"
      by (simp add: keyed_enrichments_def)
    from key[OF this]
    have "source_at KWikipedia (sources (fst ?res)) = Some (PWikipedia (summary_only s))"
      using wikipedia_links_failed[of h lang t s rj ?b] that by simp
    then show ?thesis by auto
  qed
  show ?thesis
  proof (intro exI[of _ "fst ?res"] exI[of _ "snd ?res"] conjI ballI allI impI)
    show "resolveEntityFromCandidate h lang t i = Inr (fst ?res, snd ?res)" by (rule res)
    show "same_inputs ?b (fst ?res)" by (rule s(1))
    show "snd ?res = mset (map warning (filter (enrichment_fails h lang t (fst ?res)) all_keys))"
      by (rule log)
  next
    fix kf assume "kf \<in> set ?kfs"
    then show "source_at (fst kf) (sources (fst ?res)) =
        source_at (fst kf) (sources (fst (snd kf ?b)))" by (rule key)
  next
    fix k assume "k \<noteq> KWikipedia \<and> enrichment_fails h lang t (fst ?res) k"
    then show "source_at k (sources (fst ?res)) = None" by (rule fail)
  next
    fix rj assume "page_summary h lang t = Inl rj"
    then show "wikipedia (sources (fst ?res)) = None" by (rule wp)
  next
    fix s rj assume "page_summary h lang t = Inr s \<and> parse_links h lang t = Inl rj"
    then show "wikipedia (sources (fst ?res)) = Some (summary_only s)" by (rule wl)
  qed
qed

text \<open>The fields an entity shares with the base entity, written out.\<close>

lemma base_fields:
  assumes "same_inputs (base_entity lang t i r) e"
  shows "entity_id e = i \<and>
         name e = (case getLabel r lang of Some l \<Rightarrow> if l \<noteq> [] then l else t | None \<Rightarrow> t) \<and>
         description e = getDescription r lang \<and>
         entity_type e = inferEntityType r \<and>
         identifiers e = extractExternalIdentifiers r \<and>
         wikidata (sources e) =
           Some \<lparr>claims = (case wd_claims r of Some cl \<Rightarrow> cl | None \<Rightarrow> []),
                 sitelinks = (case wd_sitelinks r of Some sl \<Rightarrow> sl | None \<Rightarrow> ''{}'')\<rparr>"
  using assms by (simp add: same_inputs_def base_entity_def no_sources_def)

text \<open>
  C7 (amended). Once the canonical record is fetched, \<open>resolveEntityFromCandidate\<close>
  returns an entity whatever the enrichments do: the entity has the candidate's id, the
  name, description, type and identifiers read from the record, and the record's claims
  and site links under \<open>sources.wikidata\<close>. Under each key it holds what the key's own
  enrichment stores when run alone on the base entity, so no enrichment changes what
  another stores. The warnings logged are those of the enrichments that fail, one each,
  in no particular order. A failing enrichment other than the encyclopedic-summary one
  leaves its key absent. The encyclopedic-summary enrichment leaves \<open>sources.wikipedia\<close>
  absent when the summary request is rejected, and keeps the summary without links when
  the summary request is answered and the links request is rejected.
\<close>

theorem best_effort_enrichment:
  assumes "fetchWikidataEntity h i = Inr (Some r)"
  shows "\<exists>e log. resolveEntityFromCandidate h lang t i = Inr (e, log) \<and>
           entity_id e = i \<and>
           name e = (case getLabel r lang of Some l \<Rightarrow> if l \<noteq> [] then l else t | None \<Rightarrow> t) \<and>
           description e = getDescription r lang \<and>
           entity_type e = inferEntityType r \<and>
           identifiers e = extractExternalIdentifiers r \<and>
           wikidata (sources e) =
             Some \<lparr>claims = (case wd_claims r of Some cl \<Rightarrow> cl | None \<Rightarrow> []),
                   sitelinks = (case wd_sitelinks r of Some sl \<Rightarrow> sl | None \<Rightarrow> ''{}'')\<rparr> \<and>
           (\<forall>kf \<in> set (keyed_enrichments h lang t).
              source_at (fst kf) (sources e) =
                source_at (fst kf) (sources (fst (snd kf (base_entity lang t i r))))) \<and>
           log = mset (map warning (filter (enrichment_fails h lang t e) all_keys)) \<and>
           (\<forall>k. k \<noteq> KWikipedia \<and> enrichment_fails h lang t e k \<longrightarrow>
                source_at k (sources e) = None) \<and>
           (\<forall>rj. page_summary h lang t = Inl rj \<longrightarrow> wikipedia (sources e) = None) \<and>
           (\<forall>s rj. page_summary h lang t = Inr s \<and> parse_links h lang t = Inl rj \<longrightarrow>
              wikipedia (sources e) = Some (summary_only s))"
proof -
  from candidate_resolution[OF assms, of lang t]
  obtain e log where el: "resolveEntityFromCandidate h lang t i = Inr (e, log)"
    "same_inputs (base_entity lang t i r) e"
    "\<forall>kf \<in> set (keyed_enrichments h lang t).
       source_at (fst kf) (sources e) =
         source_at (fst kf) (sources (fst (snd kf (base_entity lang t i r))))"
    "log = mset (map warning (filter (enrichment_fails h lang t e) all_keys))"
    "\<forall>k. k \<noteq> KWikipedia \<and> enrichment_fails h lang t e k \<longrightarrow> source_at k (sources e) = None"
    "\<forall>rj. page_summary h lang t = Inl rj \<longrightarrow> wikipedia (sources e) = None"
    "\<forall>s rj. page_summary h lang t = Inr s \<and> parse_links h lang t = Inl rj \<longrightarrow>
       wikipedia (sources e) = Some (summary_only s)"
    by (elim exE conjE)
  note bf = base_fields[OF el(2)]
  show ?thesis
    by (intro exI[of _ e] exI[of _ log] conjI)
      (rule el(1) bf[THEN conjunct1] bf[THEN conjunct2, THEN conjunct1]
        bf[THEN conjunct2, THEN conjunct2, THEN conjunct1]
        bf[THEN conjunct2, THEN conjunct2, THEN conjunct2, THEN conjunct1]
        bf[THEN conjunct2, THEN conjunct2, THEN conjunct2, THEN conjunct2, THEN conjunct1]
        bf[THEN conjunct2, THEN conjunct2, THEN conjunct2, THEN conjunct2, THEN conjunct2]
        el(3) el(4) el(5) el(6) el(7))+
qed

subsection \<open>Candidates\<close>

lemma add_candidate_ids:
  "map cand_wikidataId (add_candidate cands result) =
     (case (case result of Some r \<Rightarrow> (case r_id r of Some i \<Rightarrow> if i \<noteq> [] then Some i else None
                                      | None \<Rightarrow> None)
            | None \<Rightarrow> None) of
        Some i \<Rightarrow> if i \<in> set (map cand_wikidataId cands) then map cand_wikidataId cands
                  else map cand_wikidataId cands @ [i]
      | None \<Rightarrow> map cand_wikidataId cands)"
  by (auto simp: add_candidate_def find_None_iff split: option.splits)

lemma add_candidate_mem:
  assumes "c \<in> set (add_candidate cands result)"
  shows "c \<in> set cands \<or>
         (cand_wikidataId c \<notin> set (map cand_wikidataId cands) \<and>
          (\<exists>r. result = Some r \<and> r_id r = Some (cand_wikidataId c) \<and> realTitle r = cand_title c))"
  using assms by (auto simp: add_candidate_def find_None_iff split: option.splits if_splits)

lemma collect_answers:
  "lookups_answer h lang ts \<Longrightarrow> distinct (map cand_wikidataId cands) \<Longrightarrow>
   \<exists>cs. collect_candidates h lang ts cands = Inr cs \<and> distinct (map cand_wikidataId cs) \<and>
        set (map cand_wikidataId cs) = set (map cand_wikidataId cands) \<union> set (found_ids h lang ts)"
proof (induction ts arbitrary: cands)
  case Nil
  then show ?case by (simp add: found_ids_def List.map_filter_simps)
next
  case (Cons t ts)
  from Cons.prems(1) obtain result where r: "getWikidataIdFromWikipedia h lang t = Inr result"
    and rest: "lookups_answer h lang ts"
    by (auto simp: lookups_answer_def split: sum.splits)
  let ?c = "add_candidate cands result"
  have ids: "map cand_wikidataId ?c =
      (case lookup_id h lang t of
         Some i \<Rightarrow> if i \<in> set (map cand_wikidataId cands) then map cand_wikidataId cands
                   else map cand_wikidataId cands @ [i]
       | None \<Rightarrow> map cand_wikidataId cands)"
    unfolding add_candidate_ids by (simp add: lookup_id_def r split: option.splits)
  have d: "distinct (map cand_wikidataId ?c)"
    using Cons.prems(2) unfolding ids by (simp split: option.splits)
  from Cons.IH[OF rest d] obtain cs where cs: "collect_candidates h lang ts ?c = Inr cs"
    "distinct (map cand_wikidataId cs)"
    "set (map cand_wikidataId cs) = set (map cand_wikidataId ?c) \<union> set (found_ids h lang ts)"
    by blast
  have "set (map cand_wikidataId ?c) \<union> set (found_ids h lang ts) =
      set (map cand_wikidataId cands) \<union> set (found_ids h lang (t # ts))"
    unfolding ids by (auto simp: found_ids_def List.map_filter_simps split: option.splits)
  then show ?case using cs by (simp add: r)
qed

text \<open>
  Where a collected candidate comes from: its title is the real title of the first
  search result that leads to its id.
\<close>

lemma collect_first_title:
  "collect_candidates h lang ts cands = Inr cs \<Longrightarrow> c \<in> set cs \<Longrightarrow>
   c \<in> set cands \<or>
   (cand_wikidataId c \<notin> set (map cand_wikidataId cands) \<and>
    (\<exists>ts1 t ts2 r. ts = ts1 @ t # ts2 \<and> cand_wikidataId c \<notin> set (found_ids h lang ts1) \<and>
       getWikidataIdFromWikipedia h lang t = Inr (Some r) \<and>
       r_id r = Some (cand_wikidataId c) \<and> realTitle r = cand_title c))"
proof (induction ts arbitrary: cands)
  case Nil
  then show ?case by simp
next
  case (Cons t ts)
  from Cons.prems(1) obtain result where r: "getWikidataIdFromWikipedia h lang t = Inr result"
    and rest: "collect_candidates h lang ts (add_candidate cands result) = Inr cs"
    by (cases "getWikidataIdFromWikipedia h lang t") auto
  let ?c = "add_candidate cands result"
  have ids: "map cand_wikidataId ?c =
      (case lookup_id h lang t of
         Some i \<Rightarrow> if i \<in> set (map cand_wikidataId cands) then map cand_wikidataId cands
                   else map cand_wikidataId cands @ [i]
       | None \<Rightarrow> map cand_wikidataId cands)"
    unfolding add_candidate_ids by (simp add: lookup_id_def r split: option.splits)
  from Cons.IH[OF rest Cons.prems(2)]
  consider (old) "c \<in> set ?c"
    | (later) "cand_wikidataId c \<notin> set (map cand_wikidataId ?c)"
        "\<exists>ts1 t' ts2 r. ts = ts1 @ t' # ts2 \<and> cand_wikidataId c \<notin> set (found_ids h lang ts1) \<and>
           getWikidataIdFromWikipedia h lang t' = Inr (Some r) \<and>
           r_id r = Some (cand_wikidataId c) \<and> realTitle r = cand_title c"
    by blast
  then show ?case
  proof cases
    case old
    from add_candidate_mem[OF old]
    consider "c \<in> set cands"
      | "cand_wikidataId c \<notin> set (map cand_wikidataId cands)"
        "\<exists>r. result = Some r \<and> r_id r = Some (cand_wikidataId c) \<and> realTitle r = cand_title c"
      by blast
    then show ?thesis
    proof cases
      case 1
      then show ?thesis by simp
    next
      case 2
      from 2(2) obtain rr where rr: "result = Some rr" "r_id rr = Some (cand_wikidataId c)"
        "realTitle rr = cand_title c"
        by blast
      have "t # ts = [] @ t # ts \<and> cand_wikidataId c \<notin> set (found_ids h lang []) \<and>
          getWikidataIdFromWikipedia h lang t = Inr (Some rr) \<and>
          r_id rr = Some (cand_wikidataId c) \<and> realTitle rr = cand_title c"
        using rr r by (simp add: found_ids_def List.map_filter_simps)
      then show ?thesis using 2(1) by blast
    qed
  next
    case later
    from later(2) obtain ts1 t' ts2 rr where s: "ts = ts1 @ t' # ts2"
      "cand_wikidataId c \<notin> set (found_ids h lang ts1)"
      "getWikidataIdFromWikipedia h lang t' = Inr (Some rr)"
      "r_id rr = Some (cand_wikidataId c)" "realTitle rr = cand_title c"
      by blast
    have sub: "set (map cand_wikidataId cands) \<subseteq> set (map cand_wikidataId ?c)"
      unfolding ids by (auto split: option.splits)
    have n1: "cand_wikidataId c \<notin> set (map cand_wikidataId cands)"
      using later(1) sub by blast
    have "lookup_id h lang t \<noteq> Some (cand_wikidataId c)"
    proof
      assume a: "lookup_id h lang t = Some (cand_wikidataId c)"
      have "cand_wikidataId c \<in> set (map cand_wikidataId ?c)"
        unfolding ids a by simp
      then show False using later(1) by simp
    qed
    then have n2: "cand_wikidataId c \<notin> set (found_ids h lang (t # ts1))"
      using s(2) by (auto simp: found_ids_def List.map_filter_simps split: option.splits)
    have "t # ts = (t # ts1) @ t' # ts2"
      using s(1) by simp
    then show ?thesis using n1 n2 s(3,4,5) by blast
  qed
qed

lemma collect_from_empty:
  assumes "lookups_answer h lang ts"
  shows "\<exists>cs. collect_candidates h lang ts [] = Inr cs \<and> distinct (map cand_wikidataId cs) \<and>
        set (map cand_wikidataId cs) = set (found_ids h lang ts) \<and>
        length cs = card (set (found_ids h lang ts)) \<and>
        (\<forall>c \<in> set cs. \<exists>ts1 t ts2 r. ts = ts1 @ t # ts2 \<and>
           cand_wikidataId c \<notin> set (found_ids h lang ts1) \<and>
           getWikidataIdFromWikipedia h lang t = Inr (Some r) \<and>
           r_id r = Some (cand_wikidataId c) \<and> realTitle r = cand_title c)"
proof -
  from collect_answers[OF assms, of "[]"] obtain cs where cs:
    "collect_candidates h lang ts [] = Inr cs" "distinct (map cand_wikidataId cs)"
    "set (map cand_wikidataId cs) = set (found_ids h lang ts)"
    by auto
  have "length cs = card (set (map cand_wikidataId cs))"
    using distinct_card[OF cs(2)] by simp
  then have l: "length cs = card (set (found_ids h lang ts))"
    using cs(3) by simp
  have p: "\<exists>ts1 t ts2 r. ts = ts1 @ t # ts2 \<and>
           cand_wikidataId c \<notin> set (found_ids h lang ts1) \<and>
           getWikidataIdFromWikipedia h lang t = Inr (Some r) \<and>
           r_id r = Some (cand_wikidataId c) \<and> realTitle r = cand_title c"
    if "c \<in> set cs" for c
    using collect_first_title[OF cs(1) that] by simp
  show ?thesis
    using cs l p by (intro exI[of _ cs] conjI ballI)
qed

lemma only_id: "set xs \<subseteq> {y} \<Longrightarrow> y \<notin> set xs \<Longrightarrow> xs = []"
proof -
  assume a: "set xs \<subseteq> {y}" "y \<notin> set xs"
  have "x \<notin> set xs" for x
    using a by (cases "x = y") auto
  then show ?thesis by (cases xs) auto
qed

lemma search_nonempty:
  "found_ids h lang ts \<noteq> [] \<Longrightarrow> ts \<noteq> []"
  by (auto simp: found_ids_def List.map_filter_simps)

text \<open>
  C1 (amended). When the search answers with titles and every lookup of a title is
  answered, one candidate is kept per distinct canonical id, with the real title of the
  first search result that leads to the id. If the titles lead to exactly one id, the one
  candidate is handed to \<open>resolveEntityFromCandidate\<close> and \<open>resolveEntity\<close> returns what
  it returns, never a disambiguation: a failure to fetch the record is rethrown, and with
  the record fetched the result is the entity with the candidate's id, the name,
  description, type and identifiers read from the record, the record's claims and site
  links, under each key what the key's enrichment stores, and the warnings of the failing
  enrichments. If the titles lead to two or more distinct ids, \<open>resolveEntity\<close> returns a
  disambiguation whose candidates are one per distinct id.
\<close>

theorem disambiguation_rule:
  assumes "searchWikipedia h lang q = Inr ts" and "lookups_answer h lang ts"
  shows "(card (set (found_ids h lang ts)) = 1 \<longrightarrow>
           (\<exists>c. collect_candidates h lang ts [] = Inr [c] \<and>
                set (found_ids h lang ts) = {cand_wikidataId c} \<and>
                (\<exists>ts1 t ts2 r. ts = ts1 @ t # ts2 \<and> found_ids h lang ts1 = [] \<and>
                   getWikidataIdFromWikipedia h lang t = Inr (Some r) \<and>
                   r_id r = Some (cand_wikidataId c) \<and> realTitle r = cand_title c) \<and>
                resolveEntity h lang q =
                  as_entity_result
                    (resolveEntityFromCandidate h lang (cand_title c) (cand_wikidataId c)) \<and>
                (\<forall>cs log. resolveEntity h lang q \<noteq> Inr (Disambiguation cs, log)) \<and>
                (\<forall>err. fetchWikidataEntity h (cand_wikidataId c) = Inl err \<longrightarrow>
                   resolveEntity h lang q = Inl err) \<and>
                (fetchWikidataEntity h (cand_wikidataId c) = Inr None \<longrightarrow>
                   resolveEntity h lang q = Inl TypeError) \<and>
                (\<forall>r. fetchWikidataEntity h (cand_wikidataId c) = Inr (Some r) \<longrightarrow>
                   (\<exists>e log. resolveEntity h lang q = Inr (EntityResult e, log) \<and>
                      entity_id e = cand_wikidataId c \<and>
                      name e = (case getLabel r lang of
                                  Some l \<Rightarrow> if l \<noteq> [] then l else cand_title c
                                | None \<Rightarrow> cand_title c) \<and>
                      description e = getDescription r lang \<and>
                      entity_type e = inferEntityType r \<and>
                      identifiers e = extractExternalIdentifiers r \<and>
                      wikidata (sources e) =
                        Some \<lparr>claims = (case wd_claims r of Some cl \<Rightarrow> cl | None \<Rightarrow> []),
                              sitelinks = (case wd_sitelinks r of Some sl \<Rightarrow> sl
                                           | None \<Rightarrow> ''{}'')\<rparr> \<and>
                      (\<forall>kf \<in> set (keyed_enrichments h lang (cand_title c)).
                         source_at (fst kf) (sources e) =
                           source_at (fst kf) (sources (fst (snd kf
                             (base_entity lang (cand_title c) (cand_wikidataId c) r))))) \<and>
                      log = mset (map warning
                              (filter (enrichment_fails h lang (cand_title c) e) all_keys)))))) \<and>
         (2 \<le> card (set (found_ids h lang ts)) \<longrightarrow>
           (\<exists>cs. resolveEntity h lang q = Inr (Disambiguation cs, {#}) \<and>
                 length cs = card (set (found_ids h lang ts)) \<and>
                 set (map cand_wikidataId cs) = set (found_ids h lang ts) \<and>
                 distinct (map cand_wikidataId cs) \<and>
                 (\<forall>c \<in> set cs. \<exists>ts1 t ts2 r. ts = ts1 @ t # ts2 \<and>
                    cand_wikidataId c \<notin> set (found_ids h lang ts1) \<and>
                    getWikidataIdFromWikipedia h lang t = Inr (Some r) \<and>
                    r_id r = Some (cand_wikidataId c) \<and> realTitle r = cand_title c)))"
proof -
  obtain cs where cs: "collect_candidates h lang ts [] = Inr cs"
    "distinct (map cand_wikidataId cs)"
    "set (map cand_wikidataId cs) = set (found_ids h lang ts)"
    "length cs = card (set (found_ids h lang ts))"
    "\<forall>c \<in> set cs. \<exists>ts1 t ts2 r. ts = ts1 @ t # ts2 \<and>
           cand_wikidataId c \<notin> set (found_ids h lang ts1) \<and>
           getWikidataIdFromWikipedia h lang t = Inr (Some r) \<and>
           r_id r = Some (cand_wikidataId c) \<and> realTitle r = cand_title c"
    using collect_from_empty[OF assms(2)] by (elim exE conjE)
  have one: "\<exists>c. collect_candidates h lang ts [] = Inr [c] \<and>
                set (found_ids h lang ts) = {cand_wikidataId c} \<and>
                (\<exists>ts1 t ts2 r. ts = ts1 @ t # ts2 \<and> found_ids h lang ts1 = [] \<and>
                   getWikidataIdFromWikipedia h lang t = Inr (Some r) \<and>
                   r_id r = Some (cand_wikidataId c) \<and> realTitle r = cand_title c) \<and>
                resolveEntity h lang q =
                  as_entity_result
                    (resolveEntityFromCandidate h lang (cand_title c) (cand_wikidataId c)) \<and>
                (\<forall>cs log. resolveEntity h lang q \<noteq> Inr (Disambiguation cs, log)) \<and>
                (\<forall>err. fetchWikidataEntity h (cand_wikidataId c) = Inl err \<longrightarrow>
                   resolveEntity h lang q = Inl err) \<and>
                (fetchWikidataEntity h (cand_wikidataId c) = Inr None \<longrightarrow>
                   resolveEntity h lang q = Inl TypeError) \<and>
                (\<forall>r. fetchWikidataEntity h (cand_wikidataId c) = Inr (Some r) \<longrightarrow>
                   (\<exists>e log. resolveEntity h lang q = Inr (EntityResult e, log) \<and>
                      entity_id e = cand_wikidataId c \<and>
                      name e = (case getLabel r lang of
                                  Some l \<Rightarrow> if l \<noteq> [] then l else cand_title c
                                | None \<Rightarrow> cand_title c) \<and>
                      description e = getDescription r lang \<and>
                      entity_type e = inferEntityType r \<and>
                      identifiers e = extractExternalIdentifiers r \<and>
                      wikidata (sources e) =
                        Some \<lparr>claims = (case wd_claims r of Some cl \<Rightarrow> cl | None \<Rightarrow> []),
                              sitelinks = (case wd_sitelinks r of Some sl \<Rightarrow> sl
                                           | None \<Rightarrow> ''{}'')\<rparr> \<and>
                      (\<forall>kf \<in> set (keyed_enrichments h lang (cand_title c)).
                         source_at (fst kf) (sources e) =
                           source_at (fst kf) (sources (fst (snd kf
                             (base_entity lang (cand_title c) (cand_wikidataId c) r))))) \<and>
                      log = mset (map warning
                              (filter (enrichment_fails h lang (cand_title c) e) all_keys))))"
    if c1: "card (set (found_ids h lang ts)) = 1"
  proof -
    obtain c where c: "cs = [c]"
      using cs(4) c1 by (cases cs) auto
    have "found_ids h lang ts \<noteq> []"
      using c1 by auto
    then have ne: "ts \<noteq> []"
      by (rule search_nonempty)
    have fi: "set (found_ids h lang ts) = {cand_wikidataId c}"
      using cs(3) c by simp
    have res: "resolveEntity h lang q =
        as_entity_result (resolveEntityFromCandidate h lang (cand_title c) (cand_wikidataId c))"
      using assms(1) ne cs(1) c by (simp add: resolveEntity_def as_entity_result_def)
    have nodis: "\<forall>ds log. resolveEntity h lang q \<noteq> Inr (Disambiguation ds, log)"
      unfolding res as_entity_result_def by (simp split: sum.splits)
    have first: "\<exists>ts1 t ts2 r. ts = ts1 @ t # ts2 \<and> found_ids h lang ts1 = [] \<and>
                   getWikidataIdFromWikipedia h lang t = Inr (Some r) \<and>
                   r_id r = Some (cand_wikidataId c) \<and> realTitle r = cand_title c"
    proof -
      from cs(5) c obtain ts1 t ts2 r where s: "ts = ts1 @ t # ts2"
        "cand_wikidataId c \<notin> set (found_ids h lang ts1)"
        "getWikidataIdFromWikipedia h lang t = Inr (Some r)"
        "r_id r = Some (cand_wikidataId c)" "realTitle r = cand_title c"
        by auto
      have "set (found_ids h lang ts1) \<subseteq> set (found_ids h lang ts)"
        unfolding s(1) found_ids_def by (auto simp: map_filter_def)
      then have "set (found_ids h lang ts1) \<subseteq> {cand_wikidataId c}"
        using fi by simp
      then have "found_ids h lang ts1 = []"
        using s(2) by (rule only_id)
      then show ?thesis using s by blast
    qed
    have rej: "\<forall>err. fetchWikidataEntity h (cand_wikidataId c) = Inl err \<longrightarrow>
        resolveEntity h lang q = Inl err"
      unfolding res as_entity_result_def by (simp add: resolveEntityFromCandidate_def)
    have und: "fetchWikidataEntity h (cand_wikidataId c) = Inr None \<longrightarrow>
        resolveEntity h lang q = Inl TypeError"
      unfolding res as_entity_result_def by (simp add: resolveEntityFromCandidate_def)
    have ent: "\<forall>r. fetchWikidataEntity h (cand_wikidataId c) = Inr (Some r) \<longrightarrow>
       (\<exists>e log. resolveEntity h lang q = Inr (EntityResult e, log) \<and>
          entity_id e = cand_wikidataId c \<and>
          name e = (case getLabel r lang of
                      Some l \<Rightarrow> if l \<noteq> [] then l else cand_title c
                    | None \<Rightarrow> cand_title c) \<and>
          description e = getDescription r lang \<and>
          entity_type e = inferEntityType r \<and>
          identifiers e = extractExternalIdentifiers r \<and>
          wikidata (sources e) =
            Some \<lparr>claims = (case wd_claims r of Some cl \<Rightarrow> cl | None \<Rightarrow> []),
                  sitelinks = (case wd_sitelinks r of Some sl \<Rightarrow> sl
                               | None \<Rightarrow> ''{}'')\<rparr> \<and>
          (\<forall>kf \<in> set (keyed_enrichments h lang (cand_title c)).
             source_at (fst kf) (sources e) =
               source_at (fst kf) (sources (fst (snd kf
                 (base_entity lang (cand_title c) (cand_wikidataId c) r))))) \<and>
          log = mset (map warning
                  (filter (enrichment_fails h lang (cand_title c) e) all_keys)))"
    proof (intro allI impI)
      fix r assume f: "fetchWikidataEntity h (cand_wikidataId c) = Inr (Some r)"
      from candidate_resolution[OF f, of lang "cand_title c"]
      obtain e log where el:
        "resolveEntityFromCandidate h lang (cand_title c) (cand_wikidataId c) = Inr (e, log)"
        "same_inputs (base_entity lang (cand_title c) (cand_wikidataId c) r) e"
        "\<forall>kf \<in> set (keyed_enrichments h lang (cand_title c)).
           source_at (fst kf) (sources e) =
             source_at (fst kf) (sources (fst (snd kf
               (base_entity lang (cand_title c) (cand_wikidataId c) r))))"
        "log = mset (map warning (filter (enrichment_fails h lang (cand_title c) e) all_keys))"
        by (elim exE conjE)
      note bf = base_fields[OF el(2)]
      have r: "resolveEntity h lang q = Inr (EntityResult e, log)"
        unfolding res as_entity_result_def el(1) by simp
      show "\<exists>e log. resolveEntity h lang q = Inr (EntityResult e, log) \<and>
          entity_id e = cand_wikidataId c \<and>
          name e = (case getLabel r lang of
                      Some l \<Rightarrow> if l \<noteq> [] then l else cand_title c
                    | None \<Rightarrow> cand_title c) \<and>
          description e = getDescription r lang \<and>
          entity_type e = inferEntityType r \<and>
          identifiers e = extractExternalIdentifiers r \<and>
          wikidata (sources e) =
            Some \<lparr>claims = (case wd_claims r of Some cl \<Rightarrow> cl | None \<Rightarrow> []),
                  sitelinks = (case wd_sitelinks r of Some sl \<Rightarrow> sl
                               | None \<Rightarrow> ''{}'')\<rparr> \<and>
          (\<forall>kf \<in> set (keyed_enrichments h lang (cand_title c)).
             source_at (fst kf) (sources e) =
               source_at (fst kf) (sources (fst (snd kf
                 (base_entity lang (cand_title c) (cand_wikidataId c) r))))) \<and>
          log = mset (map warning
                  (filter (enrichment_fails h lang (cand_title c) e) all_keys))"
        by (intro exI[of _ e] exI[of _ log] conjI)
          (rule r bf[THEN conjunct1] bf[THEN conjunct2, THEN conjunct1]
            bf[THEN conjunct2, THEN conjunct2, THEN conjunct1]
            bf[THEN conjunct2, THEN conjunct2, THEN conjunct2, THEN conjunct1]
            bf[THEN conjunct2, THEN conjunct2, THEN conjunct2, THEN conjunct2, THEN conjunct1]
            bf[THEN conjunct2, THEN conjunct2, THEN conjunct2, THEN conjunct2, THEN conjunct2]
            el(3) el(4))+
    qed
    have c1': "collect_candidates h lang ts [] = Inr [c]"
      using cs(1) c by simp
    show ?thesis
      by (intro exI[of _ c] conjI) (rule c1' fi first res nodis rej und ent)+
  qed
  have many: "\<exists>cs. resolveEntity h lang q = Inr (Disambiguation cs, {#}) \<and>
                 length cs = card (set (found_ids h lang ts)) \<and>
                 set (map cand_wikidataId cs) = set (found_ids h lang ts) \<and>
                 distinct (map cand_wikidataId cs) \<and>
                 (\<forall>c \<in> set cs. \<exists>ts1 t ts2 r. ts = ts1 @ t # ts2 \<and>
                    cand_wikidataId c \<notin> set (found_ids h lang ts1) \<and>
                    getWikidataIdFromWikipedia h lang t = Inr (Some r) \<and>
                    r_id r = Some (cand_wikidataId c) \<and> realTitle r = cand_title c)"
    if c2: "2 \<le> card (set (found_ids h lang ts))"
  proof -
    have "found_ids h lang ts \<noteq> []"
      using c2 by auto
    then have ne: "ts \<noteq> []"
      by (rule search_nonempty)
    have l: "length cs \<noteq> 0" "length cs \<noteq> 1"
      using cs(4) c2 by linarith+
    have r: "resolveEntity h lang q = Inr (Disambiguation cs, {#})"
      using l by (simp add: resolveEntity_def assms(1) ne cs(1) del: length_0_conv)
    show ?thesis
      by (intro exI[of _ cs] conjI) (rule r cs(4) cs(3) cs(2) cs(5))+
  qed
  show ?thesis
    by (intro conjI impI) (erule one, erule many)
qed

subsection \<open>Errors\<close>












subsection \<open>Resolutions of the example host\<close>

lemma bilbo_search:
  "searchWikipedia tolkien_host ''fr'' ''Bilbo'' = Inr [''Tolkien'', ''J. R. R. Tolkien'']"
  "lookups_answer tolkien_host ''fr'' [''Tolkien'', ''J. R. R. Tolkien'']"
  "found_ids tolkien_host ''fr'' [''Tolkien'', ''J. R. R. Tolkien''] = [''Q892'', ''Q892'']"
  "fetchWikidataEntity tolkien_host ''Q892'' = Inr (Some tolkien_record)"
  by code_simp+

lemma tolkien_search:
  "searchWikipedia tolkien_host ''fr'' ''Tolkien'' =
     Inr [''Tolkien'', ''J. R. R. Tolkien'', ''Tolkien (film)'', ''Tolkien Estate'']"
  "lookups_answer tolkien_host ''fr''
     [''Tolkien'', ''J. R. R. Tolkien'', ''Tolkien (film)'', ''Tolkien Estate'']"
  "found_ids tolkien_host ''fr''
     [''Tolkien'', ''J. R. R. Tolkien'', ''Tolkien (film)'', ''Tolkien Estate''] =
     [''Q892'', ''Q892'', ''Q56856343'']"
  by code_simp+

lemma tolkien_resolution:
  "resolveEntity tolkien_host ''fr'' ''Tolkien'' =
     Inr (Disambiguation
       [\<lparr>cand_title = ''J. R. R. Tolkien'', cand_wikidataId = ''Q892''\<rparr>,
        \<lparr>cand_title = ''Tolkien (film)'', cand_wikidataId = ''Q56856343''\<rparr>], {#})"
  by code_simp

lemma tolkien_cards:
  "card (set (found_ids tolkien_host ''fr'' [''Tolkien'', ''J. R. R. Tolkien''])) = 1"
  "card (set (found_ids tolkien_host ''fr''
     [''Tolkien'', ''J. R. R. Tolkien'', ''Tolkien (film)'', ''Tolkien Estate''])) = 2"
  by code_simp+

lemma tolkien_fields:
  "getLabel tolkien_record ''fr'' = Some ''J. R. R. Tolkien''"
  "inferEntityType tolkien_record = ''person''"
  by code_simp+

theorem disambiguation_rule_witness:
  "searchWikipedia tolkien_host ''fr'' ''Bilbo'' = Inr [''Tolkien'', ''J. R. R. Tolkien''] \<and>
   lookups_answer tolkien_host ''fr'' [''Tolkien'', ''J. R. R. Tolkien''] \<and>
   card (set (found_ids tolkien_host ''fr'' [''Tolkien'', ''J. R. R. Tolkien''])) = 1 \<and>
   (\<exists>e log. resolveEntity tolkien_host ''fr'' ''Bilbo'' = Inr (EntityResult e, log) \<and>
      entity_id e = ''Q892'' \<and> name e = ''J. R. R. Tolkien'' \<and> entity_type e = ''person'') \<and>
   card (set (found_ids tolkien_host ''fr''
     [''Tolkien'', ''J. R. R. Tolkien'', ''Tolkien (film)'', ''Tolkien Estate''])) = 2 \<and>
   (\<exists>cs. resolveEntity tolkien_host ''fr'' ''Tolkien'' = Inr (Disambiguation cs, {#}) \<and>
      length cs = 2)"
proof -
  note r1 = disambiguation_rule[OF bilbo_search(1,2), THEN conjunct1, rule_format,
      OF tolkien_cards(1)]
  from r1 obtain c :: candidate where
    c: "set (found_ids tolkien_host ''fr'' [''Tolkien'', ''J. R. R. Tolkien'']) =
      {cand_wikidataId c}"
    and f: "\<forall>r. fetchWikidataEntity tolkien_host (cand_wikidataId c) = Inr (Some r) \<longrightarrow>
       (\<exists>e log. resolveEntity tolkien_host ''fr'' ''Bilbo'' = Inr (EntityResult e, log) \<and>
          entity_id e = cand_wikidataId c \<and>
          name e = (case getLabel r ''fr'' of
                      Some l \<Rightarrow> if l \<noteq> [] then l else cand_title c
                    | None \<Rightarrow> cand_title c) \<and>
          description e = getDescription r ''fr'' \<and>
          entity_type e = inferEntityType r \<and>
          identifiers e = extractExternalIdentifiers r \<and>
          wikidata (sources e) =
            Some \<lparr>claims = (case wd_claims r of Some cl \<Rightarrow> cl | None \<Rightarrow> []),
                  sitelinks = (case wd_sitelinks r of Some sl \<Rightarrow> sl
                               | None \<Rightarrow> ''{}'')\<rparr> \<and>
          (\<forall>kf \<in> set (keyed_enrichments tolkien_host ''fr'' (cand_title c)).
             source_at (fst kf) (sources e) =
               source_at (fst kf) (sources (fst (snd kf
                 (base_entity ''fr'' (cand_title c) (cand_wikidataId c) r))))) \<and>
          log = mset (map warning
                  (filter (enrichment_fails tolkien_host ''fr'' (cand_title c) e) all_keys)))"
    by (elim exE conjE)
  have "{cand_wikidataId c} = {''Q892''}"
    using c unfolding bilbo_search(3) by simp
  then have q: "cand_wikidataId c = ''Q892''"
    by (rule singleton_inject)
  from f[unfolded q, rule_format, OF bilbo_search(4)]
  obtain e :: entity and log :: "string multiset" where
    e: "resolveEntity tolkien_host ''fr'' ''Bilbo'' = Inr (EntityResult e, log)"
      "entity_id e = ''Q892''"
      "name e = (case getLabel tolkien_record ''fr'' of
                   Some l \<Rightarrow> if l \<noteq> [] then l else cand_title c
                 | None \<Rightarrow> cand_title c)"
      "entity_type e = inferEntityType tolkien_record"
    by (elim exE conjE)
  have n: "name e = ''J. R. R. Tolkien''"
    using e(3) unfolding tolkien_fields(1) by simp
  have ty: "entity_type e = ''person''"
    using e(4) unfolding tolkien_fields(2) .
  have one: "\<exists>e log. resolveEntity tolkien_host ''fr'' ''Bilbo'' = Inr (EntityResult e, log) \<and>
      entity_id e = ''Q892'' \<and> name e = ''J. R. R. Tolkien'' \<and> entity_type e = ''person''"
    by (intro exI[of _ e] exI[of _ log] conjI) (rule e(1) e(2) n ty)+
  have two2: "2 \<le> card (set (found_ids tolkien_host ''fr''
     [''Tolkien'', ''J. R. R. Tolkien'', ''Tolkien (film)'', ''Tolkien Estate'']))"
    unfolding tolkien_cards(2) by simp
  note r2 = disambiguation_rule[OF tolkien_search(1,2), THEN conjunct2, rule_format, OF two2]
  from r2 obtain cs :: "candidate list" where
    cs: "resolveEntity tolkien_host ''fr'' ''Tolkien'' = Inr (Disambiguation cs, {#})"
    and l: "length cs = card (set (found_ids tolkien_host ''fr''
     [''Tolkien'', ''J. R. R. Tolkien'', ''Tolkien (film)'', ''Tolkien Estate'']))"
    by (elim exE conjE)
  have "length cs = 2"
    using l unfolding tolkien_cards(2) .
  then have two: "\<exists>cs. resolveEntity tolkien_host ''fr'' ''Tolkien'' =
      Inr (Disambiguation cs, {#}) \<and> length cs = 2"
    using cs by (intro exI[of _ cs] conjI)
  show ?thesis
    by (intro conjI) (rule bilbo_search(1) bilbo_search(2) tolkien_cards one two)+
qed

text \<open>
  The claim as stated fails twice. One candidate survives the search for "Biopic", its
  record cannot be fetched, and \<open>resolveEntity\<close> rethrows the rejection: no entity is
  returned. On the host whose third lookup is rejected, the first two titles lead to two
  distinct ids, and \<open>resolveEntity\<close> rethrows the rejection of the third lookup: no
  disambiguation is returned.
\<close>

theorem single_candidate_not_entity:
  "searchWikipedia tolkien_host ''fr'' ''Biopic'' = Inr [''Tolkien (film)''] \<and>
   lookups_answer tolkien_host ''fr'' [''Tolkien (film)''] \<and>
   found_ids tolkien_host ''fr'' [''Tolkien (film)''] = [''Q56856343''] \<and>
   fetchWikidataEntity tolkien_host ''Q56856343'' = Inl (Rejection (Rejected ''offline'')) \<and>
   resolveEntity tolkien_host ''fr'' ''Biopic'' = Inl (Rejection (Rejected ''offline'')) \<and>
   searchWikipedia lookup_down ''fr'' ''Tolkien'' =
     Inr [''Tolkien'', ''Tolkien (film)'', ''Tolkien Estate''] \<and>
   found_ids lookup_down ''fr'' [''Tolkien'', ''Tolkien (film)'', ''Tolkien Estate''] =
     [''Q892'', ''Q56856343''] \<and>
   getWikidataIdFromWikipedia lookup_down ''fr'' ''Tolkien Estate'' =
     Inl (Rejection (Rejected ''offline'')) \<and>
   resolveEntity lookup_down ''fr'' ''Tolkien'' = Inl (Rejection (Rejected ''offline''))"
  by code_simp

text \<open>
  The claim as stated fails: when the summary request is answered and the links request
  is rejected, the encyclopedic-summary enrichment fails, its warning is logged, and
  \<open>sources.wikipedia\<close> is present.
\<close>

theorem failed_enrichment_keeps_key:
  "isl (parse_links links_down ''fr'' ''J. R. R. Tolkien'') \<and>
   (case resolveEntityFromCandidate links_down ''fr'' ''J. R. R. Tolkien'' ''Q892'' of
      Inl err \<Rightarrow> False
    | Inr el \<Rightarrow>
        enrichment_fails links_down ''fr'' ''J. R. R. Tolkien'' (fst el) KWikipedia \<and>
        ''Wikipedia enrichment failed:'' \<in># snd el \<and>
        wikipedia (sources (fst el)) =
          Some \<lparr>wp_title = Some ''J. R. R. Tolkien'', wp_extract = Some ''English writer'',
                wp_thumbnail = None, wp_url = None, wp_links = None\<rparr>)"
  by code_simp

lemma tolkien_openlibrary:
  assumes "identifiers e = extractExternalIdentifiers tolkien_record"
  shows "enrichment_fails tolkien_host lang t e KOpenLibrary"
proof -
  have x: "map_of (extractExternalIdentifiers tolkien_record) ''openlibrary'' =
      Some (IdValue (StringValue ''OL26320A''))"
    by code_simp
  have y: "startsWith ''OL26320A'' ''OL'' \<and> includes_str ''OL26320A'' ''A''"
    by code_simp
  have z: "isl (openlibrary_get tolkien_host
      (''https://openlibrary.org/authors/'' @ ''OL26320A'' @ ''.json''))"
    by code_simp
  show ?thesis
    unfolding enrichment_fails.simps assms x using y z by simp
qed

theorem best_effort_enrichment_witness:
  "fetchWikidataEntity tolkien_host ''Q892'' = Inr (Some tolkien_record) \<and>
   page_summary tolkien_host ''fr'' ''Tolkien'' = Inl (Rejected ''offline'') \<and>
   (\<exists>e log. resolveEntityFromCandidate tolkien_host ''fr'' ''Tolkien'' ''Q892'' = Inr (e, log) \<and>
      entity_id e = ''Q892'' \<and> entity_type e = ''person'' \<and> wikipedia (sources e) = None \<and>
      enrichment_fails tolkien_host ''fr'' ''Tolkien'' e KOpenLibrary \<and>
      openlibrary (sources e) = None \<and> ''OpenLibrary enrichment failed:'' \<in># log)"
proof -
  have p: "page_summary tolkien_host ''fr'' ''Tolkien'' = Inl (Rejected ''offline'')"
    by code_simp
  from best_effort_enrichment[OF bilbo_search(4), of "''fr''" "''Tolkien''"]
  obtain e :: entity and log :: "string multiset" where
    e: "resolveEntityFromCandidate tolkien_host ''fr'' ''Tolkien'' ''Q892'' = Inr (e, log)"
      "entity_id e = ''Q892''"
      "entity_type e = inferEntityType tolkien_record"
      "identifiers e = extractExternalIdentifiers tolkien_record"
      "log = mset (map warning (filter (enrichment_fails tolkien_host ''fr'' ''Tolkien'' e) all_keys))"
      "\<forall>k. k \<noteq> KWikipedia \<and> enrichment_fails tolkien_host ''fr'' ''Tolkien'' e k \<longrightarrow>
         source_at k (sources e) = None"
      "\<forall>rj. page_summary tolkien_host ''fr'' ''Tolkien'' = Inl rj \<longrightarrow>
         wikipedia (sources e) = None"
    by (elim exE conjE)
  have ty: "entity_type e = ''person''"
    using e(3) unfolding tolkien_fields(2) .
  have w: "wikipedia (sources e) = None"
    by (rule e(7)[rule_format, OF p])
  have f: "enrichment_fails tolkien_host ''fr'' ''Tolkien'' e KOpenLibrary"
    using e(4) by (rule tolkien_openlibrary)
  have "source_at KOpenLibrary (sources e) = None"
    using e(6)[rule_format, of KOpenLibrary] f by simp
  then have ol: "openlibrary (sources e) = None"
    by simp
  have "KOpenLibrary \<in> set (filter (enrichment_fails tolkien_host ''fr'' ''Tolkien'' e) all_keys)"
    using f by (simp add: all_keys_def)
  then have "warning KOpenLibrary \<in> set (map warning
      (filter (enrichment_fails tolkien_host ''fr'' ''Tolkien'' e) all_keys))"
    unfolding set_map by (rule imageI)
  then have lg: "''OpenLibrary enrichment failed:'' \<in># log"
    unfolding e(5) by simp
  have "\<exists>e log. resolveEntityFromCandidate tolkien_host ''fr'' ''Tolkien'' ''Q892'' = Inr (e, log) \<and>
      entity_id e = ''Q892'' \<and> entity_type e = ''person'' \<and> wikipedia (sources e) = None \<and>
      enrichment_fails tolkien_host ''fr'' ''Tolkien'' e KOpenLibrary \<and>
      openlibrary (sources e) = None \<and> ''OpenLibrary enrichment failed:'' \<in># log"
    by (intro exI[of _ e] exI[of _ log] conjI) (rule e(1) e(2) ty w f ol lg)+
  then show ?thesis
    by (intro conjI) (rule bilbo_search(4) p)+
qed

end
